theory Spec2Isabelle
  imports Main
begin

section \<open>Data model of \<open>urllib3/_async/connection.py\<close>\<close>

text \<open>
  Byte strings are lists of 8-bit characters. Python text is modelled by the same type,
  which restricts text to the code points below 256: on that range \<open>encode("latin-1")\<close>
  and \<open>decode("latin1")\<close> are the identity, and \<open>encode("ascii")\<close> fails on a
  character of 128 or more. Whether a value is text or bytes is kept by the constructor
  that carries it.
\<close>

type_synonym bytes = "char list"

datatype h11_error = LocalProtocolError | RemoteProtocolError | EngineRuntimeError

datatype transport_error = SocketTimeout | SocketError | TLSError

text \<open>
  The request body as \<open>_make_body_iterable\<close> tells its shapes apart, in the order of its
  tests: \<open>None\<close>, a byte string, an object with a \<open>read\<close> attribute (given by the blocks
  its successive \<open>read(8192)\<close> calls return; a list that runs out reads as \<open>b""\<close>), any
  other iterable that is not text (given by the chunks it yields), text, and any value
  that is none of these.
\<close>

datatype body =
    BodyNone
  | BodyBytes bytes
  | BodyReadable "bytes list"
  | BodyIterable "bytes list"
  | BodyText string
  | BodyOther

datatype header_name = NameText string | NameBytes bytes

datatype header_value = ValueText string | ValueBytes bytes | ValueInt int

record request =
  req_method :: bytes
  req_target :: bytes
  req_headers :: "(header_name \<times> header_value) list"
  req_body :: body

text \<open>The \<open>h11.Response\<close> (and \<open>h11.InformationalResponse\<close>) event.\<close>

record h11_response =
  h11_status_code :: int
  h11_http_version :: bytes
  h11_headers :: "(bytes \<times> bytes) list"

text \<open>
  The urllib3 \<open>Response\<close>. Its body is the object handed to \<open>_response_from_h11\<close>; the
  connection passes itself, a reference that is written \<open>Self\<close>.
\<close>

record 'b response =
  status_code :: int
  resp_headers :: "(string \<times> string) list"
  resp_body :: 'b
  version :: bytes

datatype conn_ref = Self

datatype error =
    InvalidBodyError
  | ProtocolError
  | BadVersionError bytes
  | FailedTunnelError "conn_ref response"
  | ConnectTimeoutError
  | NewConnectionError
  | LoopAbort
  | AssertionError
  | RuntimeError
  | TypeError
  | AttributeError
  | UnicodeEncodeError
  | EngineError h11_error
  | TransportError transport_error
  | SSLError
  | CertificateError

text \<open>
  \<open>ProtocolError\<close> is raised in this file only by the state check of
  \<open>_start_http_request\<close>; what the framing engine raises is an \<open>EngineError\<close>, what the
  transport backend raises a \<open>TransportError\<close>.
\<close>

section \<open>Header conversion\<close>

definition is_ascii :: "string \<Rightarrow> bool" where
  "is_ascii s = list_all (\<lambda>c. of_char c < (128::nat)) s"

definition digit_char :: "nat \<Rightarrow> char" where
  "digit_char d = ''0123456789abcdef'' ! d"

fun show_nat :: "nat \<Rightarrow> string" where
  "show_nat n =
     (if n < 10 then [digit_char n] else show_nat (n div 10) @ [digit_char (n mod 10)])"

declare show_nat.simps [simp del]

definition show_int :: "int \<Rightarrow> string" where
  "show_int i = (if i < 0 then CHR ''-'' # show_nat (nat (- i)) else show_nat (nat i))"

text \<open>\<open>_stringify_headers\<close>: one header, then the generator over all of them.\<close>

definition stringify_header :: "header_name \<times> header_value \<Rightarrow> error + bytes \<times> bytes" where
  "stringify_header nv =
     (case (case fst nv of
              NameText s \<Rightarrow> if is_ascii s then Inr s else Inl UnicodeEncodeError
            | NameBytes b \<Rightarrow> Inr b) of
        Inl e \<Rightarrow> Inl e
      | Inr name \<Rightarrow>
          Inr (name,
               (case snd nv of
                  ValueText s \<Rightarrow> s
                | ValueInt i \<Rightarrow> show_int i
                | ValueBytes b \<Rightarrow> b)))"

fun stringify_headers :: "(header_name \<times> header_value) list \<Rightarrow> error + (bytes \<times> bytes) list" where
  "stringify_headers [] = Inr []"
| "stringify_headers (nv # rest) =
     (case stringify_header nv of
        Inl e \<Rightarrow> Inl e
      | Inr h \<Rightarrow> (case stringify_headers rest of Inl e \<Rightarrow> Inl e | Inr hs \<Rightarrow> Inr (h # hs)))"

text \<open>\<open>_headers_to_native_string\<close>: both components decoded as Latin-1.\<close>

definition headers_to_native_string :: "(bytes \<times> bytes) list \<Rightarrow> (string \<times> string) list" where
  "headers_to_native_string hs = map (\<lambda>(n, v). (n, v)) hs"

section \<open>Request bodies\<close>

text \<open>\<open>_read_readable\<close>: blocks are yielded until a read returns nothing.\<close>

fun read_readable :: "bytes list \<Rightarrow> bytes list" where
  "read_readable [] = []"
| "read_readable (datablock # later) =
     (if datablock = [] then [] else datablock # read_readable later)"

definition make_body_iterable :: "body \<Rightarrow> error + bytes list" where
  "make_body_iterable b =
     (case b of
        BodyNone \<Rightarrow> Inr []
      | BodyBytes bs \<Rightarrow> Inr [bs]
      | BodyReadable blocks \<Rightarrow> Inr (read_readable blocks)
      | BodyIterable chunks \<Rightarrow> Inr chunks
      | BodyText s \<Rightarrow> Inl InvalidBodyError
      | BodyOther \<Rightarrow> Inl InvalidBodyError)"

section \<open>Responses\<close>

definition SUPPORTED_VERSIONS :: "bytes set" where
  "SUPPORTED_VERSIONS = {''1.0'', ''1.1''}"

definition response_from_h11 :: "h11_response \<Rightarrow> 'b \<Rightarrow> error + 'b response" where
  "response_from_h11 r body_object =
     (if h11_http_version r \<notin> SUPPORTED_VERSIONS then Inl (BadVersionError (h11_http_version r))
      else Inr \<lparr> status_code = h11_status_code r,
                 resp_headers = headers_to_native_string (h11_headers r),
                 resp_body = body_object,
                 version = ''HTTP/'' @ h11_http_version r \<rparr>)"

section \<open>The framing engine\<close>

text \<open>
  The h11 state machine is a library outside this repository. It enters the model as a
  record of its operations over an abstract engine state \<open>'sm\<close>, so every theorem below
  that leaves the engine \<open>E\<close> free holds for all behaviours of the engine. An operation
  that raises returns \<open>Inl\<close> together with the state it leaves behind, since the engine
  object is mutated in place. Building an event (\<open>h11.Request(...)\<close>, \<open>h11.Data(...)\<close>)
  is part of \<open>send\<close>.
\<close>

datatype h11_state =
    IDLE | SEND_RESPONSE | SEND_BODY | DONE | MUST_CLOSE | CLOSED | ERROR
  | MIGHT_SWITCH_PROTOCOL | SWITCHED_PROTOCOL

datatype h11_event = Request bytes bytes "(bytes \<times> bytes) list" | Data bytes | EndOfMessage

datatype h11_received =
    NEED_DATA
  | PAUSED
  | InformationalResponse h11_response
  | Response h11_response
  | ReceivedData bytes
  | ReceivedEndOfMessage
  | ConnectionClosed

record 'sm engine =
  new_connection :: 'sm
  our_state :: "'sm \<Rightarrow> h11_state"
  their_state :: "'sm \<Rightarrow> h11_state"
  send :: "'sm \<Rightarrow> h11_event \<Rightarrow> (h11_error + bytes) \<times> 'sm"
  receive_data :: "'sm \<Rightarrow> bytes \<Rightarrow> (h11_error + unit) \<times> 'sm"
  next_event :: "'sm \<Rightarrow> (h11_error + h11_received) \<times> 'sm"
  send_failed :: "'sm \<Rightarrow> 'sm"

section \<open>Serialising a request\<close>

text \<open>
  Both generators of \<open>_request_bytes_iterable\<close> are lazy: the engine's \<open>send\<close> runs when a
  piece is asked for, interleaved with what the receiving side does to the same engine.
  A generator is therefore modelled by the point at which it is suspended, and by the
  function that resumes it once: the result is \<open>Inr (Some piece)\<close> for a yield,
  \<open>Inr None\<close> for \<open>StopIteration\<close> and \<open>Inl e\<close> for an exception, with the new
  suspension point and the engine state.

  \<open>all_pieces_iter\<close> is suspended before its first statement (\<open>PiecesNew\<close>), at the
  yield of the request head with the body not yet looked at (\<open>PiecesHead\<close>), at the yield
  of a chunk with the chunks still to come (\<open>PiecesChunks\<close>), at the yield of the
  end-of-message bytes (\<open>PiecesEnd\<close>), or it has finished (\<open>PiecesExhausted\<close>).
\<close>

datatype pieces_state =
    PiecesNew
  | PiecesHead
  | PiecesChunks "bytes list"
  | PiecesEnd
  | PiecesExhausted

definition send_piece ::
  "'sm engine \<Rightarrow> 'sm \<Rightarrow> h11_event \<Rightarrow> pieces_state \<Rightarrow> (error + bytes option) \<times> pieces_state \<times> 'sm" where
  "send_piece E sm ev after =
     (case send E sm ev of
        (Inl e, sm') \<Rightarrow> (Inl (EngineError e), PiecesExhausted, sm')
      | (Inr piece, sm') \<Rightarrow> (Inr (Some piece), after, sm'))"

definition next_chunk ::
  "'sm engine \<Rightarrow> 'sm \<Rightarrow> bytes list \<Rightarrow> (error + bytes option) \<times> pieces_state \<times> 'sm" where
  "next_chunk E sm chunks =
     (case chunks of
        [] \<Rightarrow> send_piece E sm EndOfMessage PiecesEnd
      | chunk # later \<Rightarrow> send_piece E sm (Data chunk) (PiecesChunks later))"

definition all_pieces_iter ::
  "'sm engine \<Rightarrow> request \<Rightarrow> pieces_state \<Rightarrow> 'sm \<Rightarrow> (error + bytes option) \<times> pieces_state \<times> 'sm" where
  "all_pieces_iter E req st sm =
     (case st of
        PiecesNew \<Rightarrow>
          (case stringify_headers (req_headers req) of
             Inl e \<Rightarrow> (Inl e, PiecesExhausted, sm)
           | Inr hs \<Rightarrow> send_piece E sm (Request (req_method req) (req_target req) hs) PiecesHead)
      | PiecesHead \<Rightarrow>
          (case make_body_iterable (req_body req) of
             Inl e \<Rightarrow> (Inl e, PiecesExhausted, sm)
           | Inr chunks \<Rightarrow> next_chunk E sm chunks)
      | PiecesChunks chunks \<Rightarrow> next_chunk E sm chunks
      | PiecesEnd \<Rightarrow> (Inr None, PiecesExhausted, sm)
      | PiecesExhausted \<Rightarrow> (Inr None, PiecesExhausted, sm))"

text \<open>
  The number of pieces \<open>all_pieces_iter\<close> can still yield from a suspension point; it
  bounds the loop that skips empty pieces.
\<close>

definition pieces_left :: "request \<Rightarrow> pieces_state \<Rightarrow> nat" where
  "pieces_left req st =
     (case st of
        PiecesNew \<Rightarrow> (case make_body_iterable (req_body req) of Inl e \<Rightarrow> 3 | Inr cs \<Rightarrow> length cs + 3)
      | PiecesHead \<Rightarrow> (case make_body_iterable (req_body req) of Inl e \<Rightarrow> 2 | Inr cs \<Rightarrow> length cs + 2)
      | PiecesChunks cs \<Rightarrow> length cs + 2
      | PiecesEnd \<Rightarrow> 1
      | PiecesExhausted \<Rightarrow> 0)"

lemma all_pieces_iter_decreases:
  "all_pieces_iter E req st sm = (Inr (Some piece), st', sm') \<Longrightarrow>
   pieces_left req st' < pieces_left req st"
  by (auto simp: all_pieces_iter_def next_chunk_def send_piece_def pieces_left_def
      split: pieces_state.splits sum.splits list.splits prod.splits)

text \<open>
  \<open>_request_bytes_iterable\<close> is suspended before its first statement (\<open>IterNew\<close>), inside
  its final \<open>for\<close> loop with \<open>all_pieces_iter\<close> suspended as given (\<open>IterRunning\<close>), or it
  has finished (\<open>IterDone\<close>).
\<close>

datatype iterable_state = IterNew | IterRunning pieces_state | IterDone

text \<open>The final loop: pieces are pulled until one is not empty.\<close>

function nonempty_piece ::
  "'sm engine \<Rightarrow> request \<Rightarrow> pieces_state \<Rightarrow> 'sm \<Rightarrow> (error + bytes option) \<times> iterable_state \<times> 'sm" where
  "nonempty_piece E req st sm =
     (case all_pieces_iter E req st sm of
        (Inl e, st', sm') \<Rightarrow> (Inl e, IterDone, sm')
      | (Inr None, st', sm') \<Rightarrow> (Inr None, IterDone, sm')
      | (Inr (Some piece), st', sm') \<Rightarrow>
          if piece \<noteq> [] then (Inr (Some piece), IterRunning st', sm')
          else nonempty_piece E req st' sm')"
  by pat_completeness auto
termination
  by (relation "measure (\<lambda>(E, req, st, sm). pieces_left req st)")
     (auto dest: all_pieces_iter_decreases [OF sym])

declare nonempty_piece.simps [simp del]

text \<open>
  \<open>next(remaining_pieces) + next(remaining_pieces)\<close>. A \<open>StopIteration\<close> escaping here
  would surface as a \<open>RuntimeError\<close> of the enclosing generator; \<open>all_pieces_iter\<close> yields
  at least twice unless it raises, so that branch is never taken.
\<close>

definition first_packet_bytes ::
  "'sm engine \<Rightarrow> request \<Rightarrow> 'sm \<Rightarrow> (error + bytes) \<times> pieces_state \<times> 'sm" where
  "first_packet_bytes E req sm =
     (case all_pieces_iter E req PiecesNew sm of
        (Inl e, st1, sm1) \<Rightarrow> (Inl e, st1, sm1)
      | (Inr None, st1, sm1) \<Rightarrow> (Inl RuntimeError, st1, sm1)
      | (Inr (Some head), st1, sm1) \<Rightarrow>
          (case all_pieces_iter E req st1 sm1 of
             (Inl e, st2, sm2) \<Rightarrow> (Inl e, st2, sm2)
           | (Inr None, st2, sm2) \<Rightarrow> (Inl RuntimeError, st2, sm2)
           | (Inr (Some second), st2, sm2) \<Rightarrow> (Inr (head @ second), st2, sm2)))"

definition request_bytes_iterable ::
  "'sm engine \<Rightarrow> request \<Rightarrow> iterable_state \<Rightarrow> 'sm \<Rightarrow> (error + bytes option) \<times> iterable_state \<times> 'sm" where
  "request_bytes_iterable E req it sm =
     (case it of
        IterNew \<Rightarrow>
          (case first_packet_bytes E req sm of
             (Inl e, st, sm') \<Rightarrow> (Inl e, IterDone, sm')
           | (Inr first, st, sm') \<Rightarrow>
               if first \<noteq> [] then (Inr (Some first), IterRunning st, sm')
               else nonempty_piece E req st sm')
      | IterRunning st \<Rightarrow> nonempty_piece E req st sm
      | IterDone \<Rightarrow> (Inr None, IterDone, sm))"

text \<open>
  A suspension point of \<open>_request_bytes_iterable\<close> tells how a resumption ends: after an
  exception or \<open>StopIteration\<close> the generator has finished, and what it yields is never
  empty.
\<close>

lemma nonempty_piece_result:
  "nonempty_piece E req st sm = (r, it', sm') \<Longrightarrow>
   (case r of
      Inl e \<Rightarrow> it' = IterDone
    | Inr None \<Rightarrow> it' = IterDone
    | Inr (Some piece) \<Rightarrow> piece \<noteq> [] \<and> (\<exists>st'. it' = IterRunning st'))"
proof (induction E req st sm rule: nonempty_piece.induct)
  case (1 E req st sm)
  show ?case
  proof (cases "all_pieces_iter E req st sm")
    case (fields r0 st0 sm0)
    show ?thesis
    proof (cases r0)
      case (Inl e)
      with fields "1.prems" show ?thesis
        by (auto simp add: nonempty_piece.simps [of E req st sm])
    next
      case (Inr y)
      show ?thesis
      proof (cases y)
        case None
        with Inr fields "1.prems" show ?thesis
          by (auto simp add: nonempty_piece.simps [of E req st sm])
      next
        case (Some piece)
        show ?thesis
        proof (cases "piece = []")
          case True
          with Some Inr fields "1.prems"
          have "nonempty_piece E req st0 sm0 = (r, it', sm')"
            by (auto simp add: nonempty_piece.simps [of E req st sm])
          with "1.IH" [OF fields [symmetric] Inr Some] True show ?thesis by simp
        next
          case False
          with Some Inr fields "1.prems" show ?thesis
            by (auto simp add: nonempty_piece.simps [of E req st sm])
        qed
      qed
    qed
  qed
qed

lemma request_bytes_iterable_result:
  "request_bytes_iterable E req it sm = (r, it', sm') \<Longrightarrow>
   (case r of
      Inl e \<Rightarrow> it' = IterDone
    | Inr None \<Rightarrow> it' = IterDone
    | Inr (Some piece) \<Rightarrow> piece \<noteq> [] \<and> (\<exists>st'. it' = IterRunning st'))"
  by (cases it)
     (auto simp: request_bytes_iterable_def split: prod.splits sum.splits if_splits
           dest: nonempty_piece_result)

definition iterable_left :: "request \<Rightarrow> iterable_state \<Rightarrow> nat" where
  "iterable_left req it =
     (case it of
        IterNew \<Rightarrow> pieces_left req PiecesNew + 1
      | IterRunning st \<Rightarrow> pieces_left req st + 1
      | IterDone \<Rightarrow> 0)"

lemma nonempty_piece_decreases:
  "nonempty_piece E req st sm = (Inr (Some piece), IterRunning st', sm') \<Longrightarrow>
   pieces_left req st' < pieces_left req st"
proof (induction E req st sm rule: nonempty_piece.induct)
  case (1 E req st sm)
  show ?case
  proof (cases "all_pieces_iter E req st sm")
    case (fields r0 st0 sm0)
    show ?thesis
    proof (cases r0)
      case (Inl e)
      with fields "1.prems" show ?thesis
        by (auto simp add: nonempty_piece.simps [of E req st sm])
    next
      case (Inr y)
      show ?thesis
      proof (cases y)
        case None
        with Inr fields "1.prems" show ?thesis
          by (auto simp add: nonempty_piece.simps [of E req st sm])
      next
        case (Some p)
        from all_pieces_iter_decreases [of E req st sm p st0 sm0] fields Inr Some
        have less: "pieces_left req st0 < pieces_left req st" by simp
        show ?thesis
        proof (cases "p = []")
          case True
          with Some Inr fields "1.prems"
          have "nonempty_piece E req st0 sm0 = (Inr (Some piece), IterRunning st', sm')"
            by (simp add: nonempty_piece.simps [of E req st sm])
          with "1.IH" [OF fields [symmetric] Inr Some] True less show ?thesis by simp
        next
          case False
          with Some Inr fields "1.prems" less show ?thesis
            by (auto simp add: nonempty_piece.simps [of E req st sm])
        qed
      qed
    qed
  qed
qed

lemma first_packet_bytes_decreases:
  "first_packet_bytes E req sm = (Inr first, st, sm') \<Longrightarrow>
   pieces_left req st < pieces_left req PiecesNew"
  by (auto simp: first_packet_bytes_def split: prod.splits sum.splits option.splits
      dest!: all_pieces_iter_decreases)

lemma request_bytes_iterable_decreases:
  assumes "request_bytes_iterable E req it sm = (Inr (Some piece), it', sm')"
  shows "iterable_left req it' < iterable_left req it"
proof -
  from request_bytes_iterable_result [OF assms] obtain st' where it': "it' = IterRunning st'"
    by auto
  show ?thesis
  proof (cases it)
    case IterNew
    obtain r0 st0 sm0 where f: "first_packet_bytes E req sm = (r0, st0, sm0)"
      by (cases "first_packet_bytes E req sm")
    with assms IterNew it' obtain first where r0: "r0 = Inr first"
      by (cases r0) (auto simp: request_bytes_iterable_def)
    from first_packet_bytes_decreases [OF f [unfolded r0]]
    have l0: "pieces_left req st0 < pieces_left req PiecesNew" .
    show ?thesis
    proof (cases "first = []")
      case True
      with assms IterNew f r0 it'
      have "nonempty_piece E req st0 sm0 = (Inr (Some piece), IterRunning st', sm')"
        by (simp add: request_bytes_iterable_def)
      from nonempty_piece_decreases [OF this] l0 IterNew it' show ?thesis
        by (simp add: iterable_left_def)
    next
      case False
      with assms IterNew f r0 it' l0 show ?thesis
        by (auto simp: request_bytes_iterable_def iterable_left_def)
    qed
  next
    case (IterRunning st)
    with assms it' have "nonempty_piece E req st sm = (Inr (Some piece), IterRunning st', sm')"
      by (simp add: request_bytes_iterable_def)
    from nonempty_piece_decreases [OF this] IterRunning it' show ?thesis
      by (simp add: iterable_left_def)
  next
    case IterDone
    with assms show ?thesis by (simp add: request_bytes_iterable_def)
  qed
qed

text \<open>
  The generator run to its end, as a transport that only writes would run it: the pieces
  it yields in order, and the exception that ended it, if one did.
\<close>

function all_request_bytes ::
  "'sm engine \<Rightarrow> request \<Rightarrow> iterable_state \<Rightarrow> 'sm \<Rightarrow> error option \<times> bytes list \<times> 'sm" where
  "all_request_bytes E req it sm =
     (case request_bytes_iterable E req it sm of
        (Inl e, it', sm') \<Rightarrow> (Some e, [], sm')
      | (Inr None, it', sm') \<Rightarrow> (None, [], sm')
      | (Inr (Some piece), it', sm') \<Rightarrow>
          (case all_request_bytes E req it' sm' of
             (r, pieces, final) \<Rightarrow> (r, piece # pieces, final)))"
  by pat_completeness auto
termination
  by (relation "measure (\<lambda>(E, req, it, sm). iterable_left req it)")
     (auto dest: request_bytes_iterable_decreases [OF sym])

declare all_request_bytes.simps [simp del]

section \<open>The transport\<close>

text \<open>
  A socket is known by its identity. What the code does to its collaborators is kept
  in a log, in the order of the calls: a chunk the transport took from the producer to
  write (\<open>Outgoing\<close>), the calls of the socket's \<open>forceful_close\<close>,
  \<open>set_readable_watch_state\<close> and \<open>start_tls\<close>, the backend's \<open>connect\<close>, the two
  certificate checks of \<open>ssl_util\<close>, the warnings, and the engine's \<open>send_failed\<close>, the
  one engine call made for its effect alone.
\<close>

type_synonym sock = nat

datatype warning = SystemTimeWarning | SubjectAltNameWarning

datatype effect =
    Outgoing sock bytes
  | SendFailed
  | ForcefulClose sock
  | SetReadableWatchState sock bool
  | BackendConnect string int "(string \<times> int) option" "(int \<times> int \<times> int) list option"
  | StartTLS sock string
  | AssertFingerprint sock string
  | MatchHostname sock string
  | Warn warning

text \<open>
  What the transport does next is the environment's choice: it asks the producer for
  the next chunk, it has read some bytes (none at all at end of stream) and hands them to
  the consumer, or it fails (a timeout, a reset). A run of the loop is driven by a list of
  such steps.
\<close>

datatype transport_step = WantsToSend | Received bytes | Fails transport_error

text \<open>
  Modelled from the spec: \<open>send_and_receive_for_a_while\<close> of the transport backend
  (\<open>urllib3/_backends\<close>, not among the sources), after its contract in the spec:
  the producer is called for the next chunk to write and returns none to stop sending, the
  consumer is called on each chunk read and may raise the loop-abort sentinel, on which the
  loop returns; any other exception of a callback leaves the loop. When the steps run out
  the loop returns without an abort. The consumer may not return at all, in which case
  the loop does not either (\<open>None\<close>).
\<close>

fun send_and_receive_for_a_while ::
  "('c \<Rightarrow> (error + bytes option) \<times> 'c) \<Rightarrow> (bytes \<Rightarrow> 'c \<Rightarrow> ((error + unit) \<times> 'c) option) \<Rightarrow>
   sock \<Rightarrow> bool \<Rightarrow> transport_step list \<Rightarrow> 'c \<Rightarrow> effect list \<Rightarrow>
   ((error + unit) \<times> 'c \<times> effect list) option" where
  "send_and_receive_for_a_while produce consume s outgoing_finished [] c log =
     Some (Inr (), c, log)"
| "send_and_receive_for_a_while produce consume s outgoing_finished (WantsToSend # steps) c log =
     (if outgoing_finished
      then send_and_receive_for_a_while produce consume s outgoing_finished steps c log
      else (case produce c of
              (Inl e, c') \<Rightarrow> Some (Inl e, c', log)
            | (Inr None, c') \<Rightarrow> send_and_receive_for_a_while produce consume s True steps c' log
            | (Inr (Some b), c') \<Rightarrow>
                send_and_receive_for_a_while produce consume s False steps c'
                  (log @ [Outgoing s b])))"
| "send_and_receive_for_a_while produce consume s outgoing_finished (Received incoming # steps) c log =
     (case consume incoming c of
        None \<Rightarrow> None
      | Some (Inl e, c') \<Rightarrow> if e = LoopAbort then Some (Inr (), c', log) else Some (Inl e, c', log)
      | Some (Inr u, c') \<Rightarrow>
          send_and_receive_for_a_while produce consume s outgoing_finished steps c' log)"
| "send_and_receive_for_a_while produce consume s outgoing_finished (Fails e # steps) c log =
     Some (Inl (TransportError e), c, log)"

section \<open>One exchange\<close>

text \<open>
  The locals of \<open>_start_http_request\<close> that its two callbacks share: the \<open>context\<close>
  dictionary, the request generator and the state machine.
\<close>

record 'sm exchange =
  send_aborted :: bool
  saved_response :: "h11_response option"
  remaining :: iterable_state
  machine :: 'sm

definition produce_bytes ::
  "'sm engine \<Rightarrow> request \<Rightarrow> 'sm exchange \<Rightarrow> (error + bytes option) \<times> 'sm exchange" where
  "produce_bytes E req x =
     (case request_bytes_iterable E req (remaining x) (machine x) of
        (Inl e, it, sm) \<Rightarrow> (Inl e, x\<lparr>remaining := it, machine := sm\<rparr>)
      | (Inr None, it, sm) \<Rightarrow> (Inr None, x\<lparr>send_aborted := False, remaining := it, machine := sm\<rparr>)
      | (Inr (Some b), it, sm) \<Rightarrow> (Inr (Some b), x\<lparr>remaining := it, machine := sm\<rparr>))"

text \<open>
  The \<open>while True\<close> of \<open>consume_bytes\<close>. For an arbitrary engine nothing bounds the
  number of informational responses, so the loop is a partial function.
\<close>

datatype consumed = NeedMore | GotResponse h11_response | Raised error

partial_function (option) read_events :: "'sm engine \<Rightarrow> 'sm \<Rightarrow> (consumed \<times> 'sm) option" where
  "read_events E sm =
     (case next_event E sm of
        (Inl e, sm') \<Rightarrow> Some (Raised (EngineError e), sm')
      | (Inr event, sm') \<Rightarrow>
          (case event of
             NEED_DATA \<Rightarrow> Some (NeedMore, sm')
           | InformationalResponse r \<Rightarrow> read_events E sm'
           | Response r \<Rightarrow> Some (GotResponse r, sm')
           | PAUSED \<Rightarrow> Some (Raised RuntimeError, sm')
           | ReceivedData d \<Rightarrow> Some (Raised RuntimeError, sm')
           | ReceivedEndOfMessage \<Rightarrow> Some (Raised RuntimeError, sm')
           | ConnectionClosed \<Rightarrow> Some (Raised RuntimeError, sm')))"

declare read_events.simps [code]

definition consume_bytes ::
  "'sm engine \<Rightarrow> bytes \<Rightarrow> 'sm exchange \<Rightarrow> ((error + unit) \<times> 'sm exchange) option" where
  "consume_bytes E incoming x =
     (case receive_data E (machine x) incoming of
        (Inl e, sm) \<Rightarrow> Some (Inl (EngineError e), x\<lparr>machine := sm\<rparr>)
      | (Inr u, sm) \<Rightarrow>
          (case read_events E sm of
             None \<Rightarrow> None
           | Some (NeedMore, sm') \<Rightarrow> Some (Inr (), x\<lparr>machine := sm'\<rparr>)
           | Some (GotResponse r, sm') \<Rightarrow>
               Some (Inl LoopAbort, x\<lparr>saved_response := Some r, machine := sm'\<rparr>)
           | Some (Raised e, sm') \<Rightarrow> Some (Inl e, x\<lparr>machine := sm'\<rparr>)))"

text \<open>
  The loop of one exchange, from the initial values of the locals. A read timeout is a
  \<open>Fails SocketTimeout\<close> step of the transport.
\<close>

definition exchange_loop ::
  "'sm engine \<Rightarrow> request \<Rightarrow> 'sm \<Rightarrow> sock \<Rightarrow> transport_step list \<Rightarrow> effect list \<Rightarrow>
   ((error + unit) \<times> 'sm exchange \<times> effect list) option" where
  "exchange_loop E req sm s steps log =
     send_and_receive_for_a_while (produce_bytes E req) (consume_bytes E) s False steps
       \<lparr> send_aborted = True, saved_response = None, remaining = IterNew, machine = sm \<rparr> log"

text \<open>
  \<open>_start_http_request\<close>. The result is what is returned or raised, the state machine as
  the call leaves it, and the log. The socket may be \<open>None\<close> (a connection that was never
  connected), which shows when its method is looked up.
\<close>

definition start_http_request ::
  "'sm engine \<Rightarrow> request \<Rightarrow> 'sm \<Rightarrow> sock option \<Rightarrow> transport_step list \<Rightarrow> effect list \<Rightarrow>
   ((error + h11_response) \<times> 'sm \<times> effect list) option" where
  "start_http_request E req sm sock_opt steps log =
     (if our_state E sm \<noteq> IDLE \<or> their_state E sm \<noteq> IDLE then Some (Inl ProtocolError, sm, log)
      else (case sock_opt of
              None \<Rightarrow> Some (Inl AttributeError, sm, log)
            | Some s \<Rightarrow>
                (case exchange_loop E req sm s steps log of
                   None \<Rightarrow> None
                 | Some (Inl e, x, log') \<Rightarrow> Some (Inl e, machine x, log')
                 | Some (Inr u, x, log') \<Rightarrow>
                     (case saved_response x of
                        None \<Rightarrow> Some (Inl AssertionError, machine x, log')
                      | Some r \<Rightarrow>
                          if send_aborted x
                          then Some (Inr r, send_failed E (machine x), log' @ [SendFailed])
                          else Some (Inr r, machine x, log')))))"

section \<open>The connection\<close>

text \<open>
  What \<open>HTTP1Connection\<close> takes from outside this file: \<open>socket.inet_pton\<close> (whether a
  host is a raw IPv6 address), \<open>Request.add_host\<close>, the date of today, and the backend's
  answers to \<open>connect\<close>, \<open>start_tls\<close> and \<open>getpeercert\<close>, with the verdicts of
  \<open>ssl_util.assert_fingerprint\<close> and \<open>ssl_util.match_hostname\<close>. Timeouts are not among
  the arguments: a timeout that expires is an answer of the backend.
\<close>

record peer_cert =
  subjectAltName :: "(string \<times> string) list"

datatype verify_mode = CERT_NONE | CERT_OPTIONAL | CERT_REQUIRED

record ssl_context =
  ctx_verify_mode :: verify_mode

datatype assert_hostname = AssertNone | AssertFalse | AssertHost string

type_synonym date = "nat \<times> nat \<times> nat"

record platform =
  inet_pton_ipv6 :: "string \<Rightarrow> bool"
  add_host :: "request \<Rightarrow> string \<Rightarrow> int \<Rightarrow> string \<Rightarrow> request"
  date_today :: date
  backend_connect ::
    "string \<Rightarrow> int \<Rightarrow> (string \<times> int) option \<Rightarrow> (int \<times> int \<times> int) list option \<Rightarrow> transport_error + sock"
  start_tls :: "sock \<Rightarrow> string \<Rightarrow> transport_error + sock"
  getpeercert :: "sock \<Rightarrow> peer_cert"
  fingerprint_accepted :: "sock \<Rightarrow> string \<Rightarrow> bool"
  hostname_accepted :: "peer_cert \<Rightarrow> string \<Rightarrow> bool"

record 'sm connection =
  is_verified :: bool
  conn_host :: string
  conn_port :: int
  conn_socket_options :: "(int \<times> int \<times> int) list"
  conn_source_address :: "(string \<times> int) option"
  conn_tunnel_host :: "string option"
  conn_tunnel_port :: "int option"
  conn_tunnel_headers :: "(header_name \<times> header_value) list"
  conn_sock :: "sock option"
  conn_state_machine :: "'sm option"

definition RECENT_DATE :: date where
  "RECENT_DATE = (2019, 1, 1)"

definition date_less :: "date \<Rightarrow> date \<Rightarrow> bool" where
  "date_less a b =
     (case a of (y, m, d) \<Rightarrow> case b of (y', m', d') \<Rightarrow>
        y < y' \<or> (y = y' \<and> (m < m' \<or> (m = m' \<and> d < d'))))"

text \<open>\<open>str.rstrip(".")\<close>\<close>

definition rstrip_dots :: "string \<Rightarrow> string" where
  "rstrip_dots h = rev (dropWhile (\<lambda>c. c = CHR ''.'') (rev h))"

text \<open>
  \<open>_build_tunnel_request\<close>. A host or a port that is \<open>None\<close> is a \<open>TypeError\<close> (of
  \<open>inet_pton\<close>, which the \<open>except\<close> clause does not catch, and of \<open>%d\<close>).
\<close>

definition build_tunnel_request ::
  "platform \<Rightarrow> string option \<Rightarrow> int option \<Rightarrow> (header_name \<times> header_value) list \<Rightarrow> error + request" where
  "build_tunnel_request W host port headers =
     (case host of
        None \<Rightarrow> Inl TypeError
      | Some h \<Rightarrow>
          (case port of
             None \<Rightarrow> Inl TypeError
           | Some p \<Rightarrow>
               Inr (add_host W
                      \<lparr> req_method = ''CONNECT'',
                        req_target = (if inet_pton_ipv6 W h then ''['' @ h @ '']:'' @ show_int p
                                      else h @ '':'' @ show_int p),
                        req_headers = headers,
                        req_body = BodyNone \<rparr>
                      h p ''http'')))"

text \<open>
  \<open>HTTP1Connection._tunnel\<close>: the exchange runs on a state machine of its own; the
  connection is not changed.
\<close>

definition tunnel ::
  "'sm engine \<Rightarrow> platform \<Rightarrow> 'sm connection \<Rightarrow> sock \<Rightarrow> transport_step list \<Rightarrow> effect list \<Rightarrow>
   ((error + unit) \<times> effect list) option" where
  "tunnel E W conn s steps log =
     (case conn_state_machine conn of
        None \<Rightarrow> Some (Inl AttributeError, log)
      | Some sm \<Rightarrow>
          if our_state E sm \<noteq> IDLE then Some (Inl AssertionError, log)
          else
            (case build_tunnel_request W (conn_tunnel_host conn) (conn_tunnel_port conn)
                    (conn_tunnel_headers conn) of
               Inl e \<Rightarrow> Some (Inl e, log)
             | Inr tunnel_request \<Rightarrow>
                 (case start_http_request E tunnel_request (new_connection E) (Some s) steps log of
                    None \<Rightarrow> None
                  | Some (Inl e, tunnel_state_machine, log') \<Rightarrow> Some (Inl e, log')
                  | Some (Inr h11_resp, tunnel_state_machine, log') \<Rightarrow>
                      (case response_from_h11 h11_resp Self of
                         Inl e \<Rightarrow> Some (Inl e, log')
                       | Inr tunnel_response \<Rightarrow>
                           if h11_status_code h11_resp \<noteq> 200
                           then Some (Inl (FailedTunnelError tunnel_response),
                                      log' @ [ForcefulClose s])
                           else Some (Inr (), log')))))"

text \<open>
  \<open>HTTP1Connection._wrap_socket\<close>. \<open>x or y\<close> takes \<open>y\<close> when \<open>x\<close> is \<open>None\<close>, \<open>False\<close> or
  the empty string.
\<close>

definition check_host :: "'sm connection \<Rightarrow> assert_hostname \<Rightarrow> string" where
  "check_host conn assert_host =
     rstrip_dots
       (case assert_host of
          AssertHost h \<Rightarrow>
            if h \<noteq> [] then h
            else (case conn_tunnel_host conn of
                    Some t \<Rightarrow> if t \<noteq> [] then t else conn_host conn
                  | None \<Rightarrow> conn_host conn)
        | _ \<Rightarrow>
            (case conn_tunnel_host conn of
               Some t \<Rightarrow> if t \<noteq> [] then t else conn_host conn
             | None \<Rightarrow> conn_host conn))"

definition wrap_socket ::
  "platform \<Rightarrow> 'sm connection \<Rightarrow> sock \<Rightarrow> ssl_context \<Rightarrow> string option \<Rightarrow> assert_hostname \<Rightarrow>
   effect list \<Rightarrow> (error + sock) \<times> 'sm connection \<times> effect list" where
  "wrap_socket W conn s ctx fingerprint assert_host log =
     (let log1 = (if date_less (date_today W) RECENT_DATE then log @ [Warn SystemTimeWarning] else log);
          host = check_host conn assert_host;
          log2 = log1 @ [StartTLS s host]
      in case start_tls W s host of
           Inl e \<Rightarrow> (Inl (TransportError e), conn, log2)
         | Inr tls \<Rightarrow>
             (let given = (case fingerprint of
                             None \<Rightarrow> None
                           | Some f \<Rightarrow> if f \<noteq> [] then Some f else None);
                  verified = conn\<lparr>is_verified :=
                    (ctx_verify_mode ctx = CERT_REQUIRED \<and> (assert_host \<noteq> AssertFalse \<or> given \<noteq> None))\<rparr>
              in case given of
                   Some f \<Rightarrow>
                     if fingerprint_accepted W tls f
                     then (Inr tls, verified, log2 @ [AssertFingerprint tls f])
                     else (Inl SSLError, conn, log2 @ [AssertFingerprint tls f])
                 | None \<Rightarrow>
                     if ctx_verify_mode ctx \<noteq> CERT_NONE \<and> assert_host \<noteq> AssertFalse
                     then (let cert = getpeercert W tls;
                               log3 = (if subjectAltName cert = []
                                       then log2 @ [Warn SubjectAltNameWarning] else log2)
                           in if hostname_accepted W cert host
                              then (Inr tls, verified, log3 @ [MatchHostname tls host])
                              else (Inl CertificateError, conn, log3 @ [MatchHostname tls host]))
                     else (Inr tls, verified, log2)))"

text \<open>
  \<open>HTTP1Connection.send_request\<close>; the state machine of the connection is the one the
  exchange mutates.
\<close>

definition send_request ::
  "'sm engine \<Rightarrow> 'sm connection \<Rightarrow> request \<Rightarrow> transport_step list \<Rightarrow> effect list \<Rightarrow>
   ((error + conn_ref response) \<times> 'sm connection \<times> effect list) option" where
  "send_request E conn req steps log =
     (case conn_state_machine conn of
        None \<Rightarrow> Some (Inl AttributeError, conn, log)
      | Some sm \<Rightarrow>
          (case start_http_request E req sm (conn_sock conn) steps log of
             None \<Rightarrow> None
           | Some (Inl e, sm', log') \<Rightarrow> Some (Inl e, conn\<lparr>conn_state_machine := Some sm'\<rparr>, log')
           | Some (Inr h11_resp, sm', log') \<Rightarrow>
               Some (response_from_h11 h11_resp Self,
                     conn\<lparr>conn_state_machine := Some sm'\<rparr>, log')))"

text \<open>
  \<open>HTTP1Connection.connect\<close>. The source calls \<open>self._tunnel(self._sock)\<close> without
  \<open>await\<close>: in the asynchronous variant (\<open>async_mode\<close>) that builds a coroutine which is
  never run, in the synchronous variant generated from this file it is the call.
\<close>

definition connect ::
  "'sm engine \<Rightarrow> platform \<Rightarrow> bool \<Rightarrow> 'sm connection \<Rightarrow> ssl_context option \<Rightarrow> string option \<Rightarrow>
   assert_hostname \<Rightarrow> transport_step list \<Rightarrow> effect list \<Rightarrow>
   ((error + unit) \<times> 'sm connection \<times> effect list) option" where
  "connect E W async_mode conn ctx_opt fingerprint assert_host steps log =
     (case conn_sock conn of
        Some s \<Rightarrow> Some (Inr (), conn, log @ [SetReadableWatchState s False])
      | None \<Rightarrow>
          (let source_address = conn_source_address conn;
               socket_options = (if conn_socket_options conn \<noteq> [] then Some (conn_socket_options conn)
                                 else None);
               log1 = log @ [BackendConnect (conn_host conn) (conn_port conn) source_address
                               socket_options]
           in case backend_connect W (conn_host conn) (conn_port conn) source_address socket_options of
                Inl e \<Rightarrow>
                  Some (Inl (if e = SocketTimeout then ConnectTimeoutError else NewConnectionError),
                        conn, log1)
              | Inr s \<Rightarrow>
                  (let conn1 = conn\<lparr>conn_sock := Some s,
                                     conn_state_machine := Some (new_connection E)\<rparr>
                   in case ctx_opt of
                        None \<Rightarrow> Some (Inr (), conn1, log1)
                      | Some ctx \<Rightarrow>
                          (case (if conn_tunnel_host conn1 \<noteq> None \<and> \<not> async_mode
                                 then tunnel E W conn1 s steps log1
                                 else Some (Inr (), log1)) of
                             None \<Rightarrow> None
                           | Some (Inl e, log2) \<Rightarrow> Some (Inl e, conn1, log2)
                           | Some (Inr u, log2) \<Rightarrow>
                               (case wrap_socket W conn1 s ctx fingerprint assert_host log2 of
                                  (Inl e, conn2, log3) \<Rightarrow> Some (Inl e, conn2, log3)
                                | (Inr tls, conn2, log3) \<Rightarrow>
                                    Some (Inr (), conn2\<lparr>conn_sock := Some tls\<rparr>, log3))))))"

text \<open>\<open>HTTP1Connection.close\<close>\<close>

definition close :: "'sm connection \<Rightarrow> effect list \<Rightarrow> 'sm connection \<times> effect list" where
  "close conn log =
     (case conn_sock conn of
        None \<Rightarrow> (conn, log)
      | Some s \<Rightarrow> (conn\<lparr>conn_state_machine := None, conn_sock := None\<rparr>, log @ [ForcefulClose s]))"

text \<open>
  The property \<open>complete\<close>. An \<open>h11.Connection\<close> object is never falsy, so
  \<open>not self._state_machine\<close> holds exactly when the field is \<open>None\<close>.
\<close>

definition complete :: "'sm engine \<Rightarrow> 'sm connection \<Rightarrow> bool" where
  "complete E conn =
     (case conn_state_machine conn of
        None \<Rightarrow> True
      | Some sm \<Rightarrow> our_state E sm = IDLE \<and> their_state E sm = IDLE)"

section \<open>A model of the framing engine\<close>

text \<open>
  Modelled from the spec: the HTTP/1.1 framing engine (h11, not among the sources), as far
  as its section of the spec and the wire format describe it. On the sending side: the
  request line and the header block, names in lower case; the framing chosen from the
  headers (\<open>Transfer-Encoding: chunked\<close> first, then \<open>Content-Length\<close>, else no body);
  a chunk as its length in lower-case hexadecimal, CRLF, the data, CRLF, with nothing at
  all for an empty chunk; the terminator \<open>0 CRLF CRLF\<close>. On the receiving side the model
  reads the head of a response and no further, which is as far as one exchange of
  \<open>_start_http_request\<close> reads. It instantiates the engine of the theorems above on
  concrete inputs.
\<close>

definition CRLF :: bytes where
  "CRLF = [CHR 0x0D, CHR 0x0A]"

definition lower_char :: "char \<Rightarrow> char" where
  "lower_char c =
     (case map_of (zip ''ABCDEFGHIJKLMNOPQRSTUVWXYZ'' ''abcdefghijklmnopqrstuvwxyz'') c of
        Some l \<Rightarrow> l
      | None \<Rightarrow> c)"

fun hex :: "nat \<Rightarrow> bytes" where
  "hex n = (if n < 16 then [digit_char n] else hex (n div 16) @ [digit_char (n mod 16)])"

declare hex.simps [simp del]

definition digit_value :: "char \<Rightarrow> nat option" where
  "digit_value c = map_of (zip ''0123456789'' [0, 1, 2, 3, 4, 5, 6, 7, 8, 9]) c"

fun parse_nat :: "nat \<Rightarrow> bytes \<Rightarrow> nat option" where
  "parse_nat acc [] = Some acc"
| "parse_nat acc (c # cs) =
     (case digit_value c of None \<Rightarrow> None | Some d \<Rightarrow> parse_nat (10 * acc + d) cs)"

datatype framing = Chunked | ContentLength nat

record h11_model =
  ours :: h11_state
  theirs :: h11_state
  body_framing :: framing
  receive_buffer :: bytes
  receive_closed :: bool

definition header_line :: "bytes \<times> bytes \<Rightarrow> bytes" where
  "header_line nv = map lower_char (fst nv) @ '': '' @ snd nv @ CRLF"

definition request_head :: "bytes \<Rightarrow> bytes \<Rightarrow> (bytes \<times> bytes) list \<Rightarrow> bytes" where
  "request_head m t hs = m @ '' '' @ t @ '' HTTP/1.1'' @ CRLF @ concat (map header_line hs) @ CRLF"

definition is_chunked :: "(bytes \<times> bytes) list \<Rightarrow> bool" where
  "is_chunked hs =
     list_ex (\<lambda>nv. map lower_char (fst nv) = ''transfer-encoding''
                  \<and> map lower_char (snd nv) = ''chunked'') hs"

definition declared_length :: "(bytes \<times> bytes) list \<Rightarrow> nat option" where
  "declared_length hs =
     (case filter (\<lambda>nv. map lower_char (fst nv) = ''content-length'') hs of
        [] \<Rightarrow> Some 0
      | nv # others \<Rightarrow> (if snd nv = [] then None else parse_nat 0 (snd nv)))"

definition chunk_frame :: "bytes \<Rightarrow> bytes" where
  "chunk_frame d = hex (length d) @ CRLF @ d @ CRLF"

definition last_chunk :: bytes where
  "last_chunk = ''0'' @ CRLF @ CRLF"

definition model_send :: "h11_model \<Rightarrow> h11_event \<Rightarrow> (h11_error + bytes) \<times> h11_model" where
  "model_send sm ev =
     (case ev of
        Request m t hs \<Rightarrow>
          if ours sm \<noteq> IDLE then (Inl LocalProtocolError, sm\<lparr>ours := ERROR\<rparr>)
          else if is_chunked hs
          then (Inr (request_head m t hs),
                sm\<lparr>ours := SEND_BODY, theirs := SEND_RESPONSE, body_framing := Chunked\<rparr>)
          else (case declared_length hs of
                  None \<Rightarrow> (Inl LocalProtocolError, sm\<lparr>ours := ERROR\<rparr>)
                | Some n \<Rightarrow>
                    (Inr (request_head m t hs),
                     sm\<lparr>ours := SEND_BODY, theirs := SEND_RESPONSE, body_framing := ContentLength n\<rparr>))
      | Data d \<Rightarrow>
          if ours sm \<noteq> SEND_BODY then (Inl LocalProtocolError, sm\<lparr>ours := ERROR\<rparr>)
          else (case body_framing sm of
                  Chunked \<Rightarrow> (Inr (if d = [] then [] else chunk_frame d), sm)
                | ContentLength n \<Rightarrow>
                    if n < length d then (Inl LocalProtocolError, sm\<lparr>ours := ERROR\<rparr>)
                    else (Inr d, sm\<lparr>body_framing := ContentLength (n - length d)\<rparr>))
      | EndOfMessage \<Rightarrow>
          if ours sm \<noteq> SEND_BODY then (Inl LocalProtocolError, sm\<lparr>ours := ERROR\<rparr>)
          else (case body_framing sm of
                  Chunked \<Rightarrow> (Inr last_chunk, sm\<lparr>ours := DONE\<rparr>)
                | ContentLength n \<Rightarrow>
                    if n \<noteq> 0 then (Inl LocalProtocolError, sm\<lparr>ours := ERROR\<rparr>)
                    else (Inr [], sm\<lparr>ours := DONE\<rparr>)))"

text \<open>The head of a response: everything before the first empty line.\<close>

fun split_head :: "bytes \<Rightarrow> (bytes \<times> bytes) option" where
  "split_head [] = None"
| "split_head (c # cs) =
     (if take 4 (c # cs) = CRLF @ CRLF then Some ([], drop 4 (c # cs))
      else (case split_head cs of None \<Rightarrow> None | Some (h, rest) \<Rightarrow> Some (c # h, rest)))"

fun split_lines :: "bytes \<Rightarrow> bytes \<Rightarrow> bytes list" where
  "split_lines line [] = [line]"
| "split_lines line [c] = [line @ [c]]"
| "split_lines line (c # d # cs) =
     (if [c, d] = CRLF then line # split_lines [] cs else split_lines (line @ [c]) (d # cs))"

definition header_of_line :: "bytes \<Rightarrow> bytes \<times> bytes" where
  "header_of_line l =
     (let name = takeWhile (\<lambda>c. c \<noteq> CHR '':'') l
      in (map lower_char name, dropWhile (\<lambda>c. c = CHR '' '') (drop (length name + 1) l)))"

text \<open>
  The status line \<open>HTTP/d.d SP ddd\<close>, with whatever follows on the line, and the header
  lines after it.
\<close>

definition parse_status_line :: "bytes \<Rightarrow> h11_response option" where
  "parse_status_line head =
     (if take 5 head = ''HTTP/'' \<and> length head \<ge> 12
         \<and> digit_value (head ! 5) \<noteq> None \<and> head ! 6 = CHR ''.'' \<and> digit_value (head ! 7) \<noteq> None
         \<and> head ! 8 = CHR '' ''
      then (case parse_nat 0 (take 3 (drop 9 head)) of
              None \<Rightarrow> None
            | Some code \<Rightarrow>
                Some \<lparr> h11_status_code = int code,
                       h11_http_version = take 3 (drop 5 head),
                       h11_headers = map header_of_line (tl (split_lines [] head)) \<rparr>)
      else None)"

definition model_receive_data :: "h11_model \<Rightarrow> bytes \<Rightarrow> (h11_error + unit) \<times> h11_model" where
  "model_receive_data sm incoming =
     (if incoming = [] then (Inr (), sm\<lparr>receive_closed := True\<rparr>)
      else if receive_closed sm then (Inl EngineRuntimeError, sm)
      else (Inr (), sm\<lparr>receive_buffer := receive_buffer sm @ incoming\<rparr>))"

definition model_next_event :: "h11_model \<Rightarrow> (h11_error + h11_received) \<times> h11_model" where
  "model_next_event sm =
     (if theirs sm = ERROR then (Inl RemoteProtocolError, sm)
      else if theirs sm \<noteq> IDLE \<and> theirs sm \<noteq> SEND_RESPONSE then (Inr PAUSED, sm)
      else (case split_head (receive_buffer sm) of
              None \<Rightarrow>
                if receive_closed sm then (Inl RemoteProtocolError, sm\<lparr>theirs := ERROR\<rparr>)
                else (Inr NEED_DATA, sm)
            | Some (head, rest) \<Rightarrow>
                (case parse_status_line head of
                   None \<Rightarrow> (Inl RemoteProtocolError, sm\<lparr>theirs := ERROR\<rparr>)
                 | Some r \<Rightarrow>
                     if h11_status_code r < 200
                     then (Inr (InformationalResponse r), sm\<lparr>receive_buffer := rest\<rparr>)
                     else (Inr (Response r), sm\<lparr>theirs := SEND_BODY, receive_buffer := rest\<rparr>))))"

definition h11_client :: "h11_model engine" where
  "h11_client =
     \<lparr> new_connection = \<lparr> ours = IDLE, theirs = IDLE, body_framing = ContentLength 0,
                          receive_buffer = [], receive_closed = False \<rparr>,
       our_state = ours,
       their_state = theirs,
       send = model_send,
       receive_data = model_receive_data,
       next_event = model_next_event,
       send_failed = (\<lambda>sm. sm\<lparr>ours := ERROR\<rparr>) \<rparr>"

section \<open>Concrete inputs\<close>

text \<open>
  The inputs on which the theorems below are instantiated: a chunked \<open>GET\<close> request with
  a body to choose, the head of a response with a version and a status to choose, an
  environment, and a connected connection over the engine model.
\<close>

definition example_request :: "body \<Rightarrow> request" where
  "example_request b =
     \<lparr> req_method = ''GET'', req_target = ''/'',
       req_headers = [(NameText ''Transfer-Encoding'', ValueText ''chunked'')],
       req_body = b \<rparr>"

definition example_head :: bytes where
  "example_head = request_head ''GET'' ''/'' [(''Transfer-Encoding'', ''chunked'')]"

definition response_bytes :: "bytes \<Rightarrow> bytes \<Rightarrow> bytes" where
  "response_bytes v code = ''HTTP/'' @ v @ '' '' @ code @ '' X'' @ CRLF @ CRLF"

definition example_platform :: platform where
  "example_platform =
     \<lparr> inet_pton_ipv6 = (\<lambda>h. CHR '':'' \<in> set h),
       add_host = (\<lambda>r h p scheme.
                     r\<lparr>req_headers := req_headers r @ [(NameText ''Host'', ValueText h)]\<rparr>),
       date_today = (2026, 11, 3),
       backend_connect = (\<lambda>h p a opts. Inr 7),
       start_tls = (\<lambda>s h. Inr (s + 1)),
       getpeercert = (\<lambda>s. \<lparr> subjectAltName = [(''DNS'', ''example.com'')] \<rparr>),
       fingerprint_accepted = (\<lambda>s f. True),
       hostname_accepted = (\<lambda>cert h. h = ''example.com'' \<or> h = ''::1'') \<rparr>"

definition example_connection :: "string \<Rightarrow> h11_model \<Rightarrow> h11_model connection" where
  "example_connection h sm =
     \<lparr> is_verified = False, conn_host = h, conn_port = 443,
       conn_socket_options = [(6, 1, 1)], conn_source_address = None,
       conn_tunnel_host = None, conn_tunnel_port = None, conn_tunnel_headers = [],
       conn_sock = Some 7, conn_state_machine = Some sm \<rparr>"

definition example_proxied :: "h11_model connection" where
  "example_proxied =
     (example_connection ''proxy'' (new_connection h11_client))
       \<lparr>conn_tunnel_host := Some ''example.com'', conn_tunnel_port := Some 443\<rparr>"

definition example_tunnel_request :: request where
  "example_tunnel_request =
     \<lparr> req_method = ''CONNECT'', req_target = ''example.com:443'',
       req_headers = [(NameText ''Host'', ValueText ''example.com'')], req_body = BodyNone \<rparr>"

definition example_tunnel_head :: bytes where
  "example_tunnel_head = request_head ''CONNECT'' ''example.com:443'' [(''Host'', ''example.com'')]"

section \<open>Hosts as the connection gets them\<close>




section \<open>What the callbacks of an exchange can do\<close>

text \<open>The exceptions that the request generator and the consumer raise themselves.\<close>

definition own_error :: "error \<Rightarrow> bool" where
  "own_error e = (e = InvalidBodyError \<or> e = UnicodeEncodeError \<or> e = RuntimeError
                  \<or> (\<exists>h. e = EngineError h))"

section \<open>Properties\<close>

lemma stringify_headers_error: "stringify_headers hs = Inl e \<Longrightarrow> e = UnicodeEncodeError"
  by (induction hs arbitrary: e)
     (auto simp: stringify_header_def split: sum.splits header_name.splits if_splits)

lemma all_pieces_iter_error:
  "all_pieces_iter E req st sm = (Inl e, st', sm') \<Longrightarrow> own_error e"
  by (auto simp: all_pieces_iter_def next_chunk_def send_piece_def make_body_iterable_def
        own_error_def
      split: pieces_state.splits sum.splits list.splits prod.splits body.splits
      dest: stringify_headers_error)

lemma nonempty_piece_error:
  "nonempty_piece E req st sm = (Inl e, it', sm') \<Longrightarrow> own_error e"
proof (induction E req st sm rule: nonempty_piece.induct)
  case (1 E req st sm)
  then show ?case
    by (auto simp: nonempty_piece.simps [of E req st sm]
        split: prod.splits sum.splits option.splits if_splits
        dest: all_pieces_iter_error)
qed

lemma request_bytes_iterable_error:
  "request_bytes_iterable E req it sm = (Inl e, it', sm') \<Longrightarrow> own_error e"
  by (cases it)
     (auto simp: request_bytes_iterable_def first_packet_bytes_def
        split: prod.splits sum.splits option.splits if_splits
        dest: nonempty_piece_error all_pieces_iter_error, auto simp: own_error_def)

lemma read_events_raised:
  assumes "read_events E sm = Some y"
  shows "case fst y of Raised e \<Rightarrow> own_error e | _ \<Rightarrow> True"
proof (rule read_events.raw_induct
    [where P = "\<lambda>E sm y. case fst y of Raised e \<Rightarrow> own_error e | _ \<Rightarrow> True", OF _ assms])
  fix f :: "'a engine \<Rightarrow> 'a \<Rightarrow> (consumed \<times> 'a) option" and E sm y
  assume IH: "\<And>E sm y. f E sm = Some y \<Longrightarrow> case fst y of Raised e \<Rightarrow> own_error e | _ \<Rightarrow> True"
    and step: "(case next_event E sm of
        (Inl e, sm') \<Rightarrow> Some (Raised (EngineError e), sm')
      | (Inr event, sm') \<Rightarrow>
          (case event of
             NEED_DATA \<Rightarrow> Some (NeedMore, sm')
           | InformationalResponse r \<Rightarrow> f E sm'
           | Response r \<Rightarrow> Some (GotResponse r, sm')
           | PAUSED \<Rightarrow> Some (Raised RuntimeError, sm')
           | ReceivedData d \<Rightarrow> Some (Raised RuntimeError, sm')
           | ReceivedEndOfMessage \<Rightarrow> Some (Raised RuntimeError, sm')
           | ConnectionClosed \<Rightarrow> Some (Raised RuntimeError, sm'))) = Some y"
  from step show "case fst y of Raised e \<Rightarrow> own_error e | _ \<Rightarrow> True"
    by (auto split: prod.splits sum.splits h11_received.splits simp: own_error_def dest: IH)
qed

lemma request_bytes_iterable_done:
  "request_bytes_iterable E req IterDone sm = (Inr None, IterDone, sm)"
  by (simp add: request_bytes_iterable_def)

lemma produce_bytes_result:
  assumes "produce_bytes E req x = (r, x')"
  shows "case r of
           Inl e \<Rightarrow> own_error e
         | Inr None \<Rightarrow> \<not> send_aborted x' \<and> remaining x' = IterDone
         | Inr (Some b) \<Rightarrow> b \<noteq> [] \<and> remaining x \<noteq> IterDone \<and> remaining x' \<noteq> IterDone
                           \<and> send_aborted x' = send_aborted x"
proof (cases "request_bytes_iterable E req (remaining x) (machine x)")
  case (fields r0 it sm)
  from request_bytes_iterable_result [OF fields]
    request_bytes_iterable_error [of E req "remaining x" "machine x" _ it sm]
    request_bytes_iterable_done [of E req "machine x"] fields assms
  show ?thesis
    by (auto simp: produce_bytes_def split: sum.splits option.splits)
qed

lemma consume_bytes_result:
  assumes "consume_bytes E incoming x = Some (r, x')"
  shows "send_aborted x' = send_aborted x \<and> remaining x' = remaining x
         \<and> (case r of
               Inl e \<Rightarrow> if e = LoopAbort then saved_response x' \<noteq> None else own_error e
             | Inr u \<Rightarrow> saved_response x' = saved_response x)"
  using assms
  by (auto simp: consume_bytes_def own_error_def
      split: prod.splits sum.splits option.splits consumed.splits dest!: read_events_raised)

lemma loop_invariant:
  assumes "send_and_receive_for_a_while (produce_bytes E req) (consume_bytes E) s fin steps x log
             = Some (r, x', log')"
    and "send_aborted x = (remaining x \<noteq> IterDone)"
  shows "(\<exists>outs. log' = log @ map (Outgoing s) outs \<and> [] \<notin> set outs)
         \<and> (case r of
               Inl e \<Rightarrow> own_error e \<or> (\<exists>t. e = TransportError t)
             | Inr u \<Rightarrow> send_aborted x' = (remaining x' \<noteq> IterDone))"
  using assms
proof (induction steps arbitrary: fin x log)
  case Nil
  then show ?case by auto
next
  case (Cons step steps)
  show ?case
  proof (cases step)
    case WantsToSend
    show ?thesis
    proof (cases fin)
      case True
      with Cons.prems WantsToSend show ?thesis
        using Cons.IH [of True x log] by simp
    next
      case False
      obtain r1 x1 where p: "produce_bytes E req x = (r1, x1)"
        by (cases "produce_bytes E req x")
      note pr = produce_bytes_result [OF p]
      show ?thesis
      proof (cases r1)
        case (Inl e)
        with Cons.prems WantsToSend False p pr show ?thesis by auto
      next
        case (Inr y)
        show ?thesis
        proof (cases y)
          case None
          with Inr Cons.prems WantsToSend False p pr
          show ?thesis using Cons.IH [of True x1 log] by simp
        next
          case (Some b)
          with Inr Cons.prems WantsToSend False p
          have run: "send_and_receive_for_a_while (produce_bytes E req) (consume_bytes E) s False
                       steps x1 (log @ [Outgoing s b]) = Some (r, x', log')"
            by simp
          from Some Inr pr Cons.prems(2)
          have inv: "send_aborted x1 = (remaining x1 \<noteq> IterDone)" and ne: "b \<noteq> []"
            by simp_all
          from Cons.IH [OF run inv] obtain outs where
            "log' = (log @ [Outgoing s b]) @ map (Outgoing s) outs" "[] \<notin> set outs"
            and rest: "case r of Inl e \<Rightarrow> own_error e \<or> (\<exists>t. e = TransportError t)
                       | Inr u \<Rightarrow> send_aborted x' = (remaining x' \<noteq> IterDone)"
            by blast
          then have "log' = log @ map (Outgoing s) (b # outs) \<and> [] \<notin> set (b # outs)"
            using ne by simp
          with rest show ?thesis by blast
        qed
      qed
    qed
  next
    case (Received incoming)
    show ?thesis
    proof (cases "consume_bytes E incoming x")
      case None
      with Cons.prems Received show ?thesis by simp
    next
      case (Some res)
      obtain r1 x1 where res: "res = (r1, x1)" by (cases res)
      note cr = consume_bytes_result [OF Some [unfolded res]]
      show ?thesis
      proof (cases r1)
        case (Inl e)
        with Cons.prems Received Some res cr show ?thesis
          by (auto split: if_splits)
      next
        case (Inr u)
        with Cons.prems Received Some res cr show ?thesis
          using Cons.IH [of fin x1 log] by simp
      qed
    qed
  next
    case (Fails e)
    with Cons.prems show ?thesis by auto
  qed
qed


lemma exchange_loop_result:
  assumes "exchange_loop E req sm s steps log = Some (r, x, log')"
  shows "(\<exists>outs. log' = log @ map (Outgoing s) outs \<and> [] \<notin> set outs)
         \<and> (case r of
               Inl e \<Rightarrow> own_error e \<or> (\<exists>t. e = TransportError t)
             | Inr u \<Rightarrow> send_aborted x = (remaining x \<noteq> IterDone))"
  using loop_invariant [OF assms [unfolded exchange_loop_def]] by simp


text \<open>
  C6. \<open>_response_from_h11\<close> raises \<open>BadVersionError\<close>, and builds no \<open>Response\<close>, exactly when
  the version bytes of the h11 response are neither \<open>1.0\<close> nor \<open>1.1\<close>; otherwise it returns
  a \<open>Response\<close> whose version is \<open>HTTP/\<close> followed by those bytes.
\<close>

theorem response_from_h11_version:
  "(if h11_http_version r = ''1.0'' \<or> h11_http_version r = ''1.1''
    then \<exists>resp. response_from_h11 r b = Inr resp
           \<and> version resp = ''HTTP/'' @ h11_http_version r
           \<and> status_code resp = h11_status_code r
           \<and> resp_body resp = b
    else response_from_h11 r b = Inl (BadVersionError (h11_http_version r)))"
  by (simp add: response_from_h11_def SUPPORTED_VERSIONS_def)

text \<open>
  C2. Whenever \<open>_start_http_request\<close> returns a response, the loop had been left with that
  response saved, having handed the transport some chunks \<open>outs\<close>. If the request
  generator had not finished by then (\<open>produce_bytes\<close> had not seen \<open>StopIteration\<close>),
  \<open>send_failed\<close> is called on the state machine, as the last thing before the response is
  returned; if the generator had finished, \<open>send_failed\<close> is not called.
\<close>

theorem send_failed_iff_request_unfinished:
  assumes "start_http_request E req sm (Some s) steps log = Some (Inr r, sm', log')"
  shows "\<exists>x outs. exchange_loop E req sm s steps log = Some (Inr (), x, log @ map (Outgoing s) outs)
           \<and> saved_response x = Some r
           \<and> (if remaining x = IterDone
                then sm' = machine x \<and> log' = log @ map (Outgoing s) outs
                else sm' = send_failed E (machine x)
                     \<and> log' = log @ map (Outgoing s) outs @ [SendFailed])"
proof -
  from assms have idle: "our_state E sm = IDLE" "their_state E sm = IDLE"
    by (auto simp: start_http_request_def split: if_splits)
  from assms idle obtain x log1 where
    run: "exchange_loop E req sm s steps log = Some (Inr (), x, log1)"
    and saved: "saved_response x = Some r"
    and fin: "if send_aborted x then sm' = send_failed E (machine x) \<and> log' = log1 @ [SendFailed]
              else sm' = machine x \<and> log' = log1"
    by (auto simp: start_http_request_def split: option.splits prod.splits sum.splits if_splits)
  from exchange_loop_result [OF run] obtain outs where
    "log1 = log @ map (Outgoing s) outs" and "send_aborted x = (remaining x \<noteq> IterDone)"
    by auto
  with run saved fin show ?thesis by auto
qed

theorem send_failed_iff_request_unfinished_witness:
  "start_http_request h11_client (example_request (BodyIterable [''ab'', ''c'']))
     (new_connection h11_client) (Some 7) [WantsToSend, Received (response_bytes ''1.1'' ''200'')] []
   = Some (Inr \<lparr> h11_status_code = 200, h11_http_version = ''1.1'', h11_headers = [] \<rparr>,
           (new_connection h11_client)\<lparr>ours := ERROR, theirs := SEND_BODY, body_framing := Chunked\<rparr>,
           [Outgoing 7 (example_head @ chunk_frame ''ab''), SendFailed])
   \<and> (\<exists>x outs.
         exchange_loop h11_client (example_request (BodyIterable [''ab'', ''c'']))
           (new_connection h11_client) 7 [WantsToSend, Received (response_bytes ''1.1'' ''200'')] []
         = Some (Inr (), x, [] @ map (Outgoing 7) outs)
         \<and> remaining x \<noteq> IterDone)
   \<and> start_http_request h11_client (example_request BodyNone)
        (new_connection h11_client) (Some 7)
        [WantsToSend, WantsToSend, Received (response_bytes ''1.1'' ''200'')] []
      = Some (Inr \<lparr> h11_status_code = 200, h11_http_version = ''1.1'', h11_headers = [] \<rparr>,
              (new_connection h11_client)\<lparr>ours := DONE, theirs := SEND_BODY, body_framing := Chunked\<rparr>,
              [Outgoing 7 (example_head @ last_chunk)])
   \<and> (\<exists>x outs.
         exchange_loop h11_client (example_request BodyNone)
           (new_connection h11_client) 7
           [WantsToSend, WantsToSend, Received (response_bytes ''1.1'' ''200'')] []
         = Some (Inr (), x, [] @ map (Outgoing 7) outs)
         \<and> remaining x = IterDone)"
proof -
  have aborted: "start_http_request h11_client (example_request (BodyIterable [''ab'', ''c'']))
     (new_connection h11_client) (Some 7) [WantsToSend, Received (response_bytes ''1.1'' ''200'')] []
   = Some (Inr \<lparr> h11_status_code = 200, h11_http_version = ''1.1'', h11_headers = [] \<rparr>,
           (new_connection h11_client)\<lparr>ours := ERROR, theirs := SEND_BODY, body_framing := Chunked\<rparr>,
           [Outgoing 7 (example_head @ chunk_frame ''ab''), SendFailed])"
    by code_simp
  have sent: "start_http_request h11_client (example_request BodyNone)
        (new_connection h11_client) (Some 7)
        [WantsToSend, WantsToSend, Received (response_bytes ''1.1'' ''200'')] []
      = Some (Inr \<lparr> h11_status_code = 200, h11_http_version = ''1.1'', h11_headers = [] \<rparr>,
              (new_connection h11_client)\<lparr>ours := DONE, theirs := SEND_BODY, body_framing := Chunked\<rparr>,
              [Outgoing 7 (example_head @ last_chunk)])"
    by code_simp
  from send_failed_iff_request_unfinished [OF aborted] obtain x outs where
    "exchange_loop h11_client (example_request (BodyIterable [''ab'', ''c'']))
           (new_connection h11_client) 7 [WantsToSend, Received (response_bytes ''1.1'' ''200'')] []
         = Some (Inr (), x, [] @ map (Outgoing 7) outs)"
    and "remaining x \<noteq> IterDone"
    by (auto split: if_splits)
  moreover from send_failed_iff_request_unfinished [OF sent] obtain y outs' where
    "exchange_loop h11_client (example_request BodyNone)
           (new_connection h11_client) 7
           [WantsToSend, WantsToSend, Received (response_bytes ''1.1'' ''200'')] []
         = Some (Inr (), y, [] @ map (Outgoing 7) outs')"
    and "remaining y = IterDone"
    by (auto split: if_splits)
  ultimately show ?thesis using aborted sent by blast
qed

text \<open>
  C3. For a call of \<open>_start_http_request\<close>, and so for \<open>send_request\<close> on a connection that
  holds the state machine: if \<open>our_state\<close> or \<open>their_state\<close> is not \<open>IDLE\<close> at entry,
  \<open>ProtocolError\<close> is raised with the state machine and the log as they were, so before
  any bytes are produced or consumed; if both are \<open>IDLE\<close>, the call does not raise
  \<open>ProtocolError\<close>, whatever the engine and the transport do.
\<close>

theorem state_check_before_exchange:
  assumes "conn_state_machine conn = Some sm"
  shows "if our_state E sm = IDLE \<and> their_state E sm = IDLE
         then (\<forall>sm' log'. start_http_request E req sm (conn_sock conn) steps log
                            \<noteq> Some (Inl ProtocolError, sm', log'))
              \<and> (\<forall>conn' log'. send_request E conn req steps log
                               \<noteq> Some (Inl ProtocolError, conn', log'))
         else start_http_request E req sm (conn_sock conn) steps log = Some (Inl ProtocolError, sm, log)
              \<and> send_request E conn req steps log = Some (Inl ProtocolError, conn, log)"
proof (cases "our_state E sm = IDLE \<and> their_state E sm = IDLE")
  case False
  then have "start_http_request E req sm (conn_sock conn) steps log = Some (Inl ProtocolError, sm, log)"
    by (auto simp: start_http_request_def)
  moreover have "conn\<lparr>conn_state_machine := Some sm\<rparr> = conn"
    using assms by simp
  ultimately show ?thesis using False assms
    by (simp add: send_request_def)
next
  case True
  have no: "start_http_request E req sm (conn_sock conn) steps log \<noteq> Some (Inl ProtocolError, sm', log')"
    for sm' log'
  proof
    assume a: "start_http_request E req sm (conn_sock conn) steps log = Some (Inl ProtocolError, sm', log')"
    then obtain s x where "conn_sock conn = Some s"
      and "exchange_loop E req sm s steps log = Some (Inl ProtocolError, x, log')"
      using True
      by (auto simp: start_http_request_def split: option.splits prod.splits sum.splits if_splits)
    from exchange_loop_result [OF this(2)] show False
      by (auto simp: own_error_def)
  qed
  have "send_request E conn req steps log \<noteq> Some (Inl ProtocolError, conn', log')" for conn' log'
    using assms no
    by (auto simp: send_request_def response_from_h11_def
        split: option.splits prod.splits sum.splits if_splits)
  with no True show ?thesis by simp
qed

theorem state_check_before_exchange_witness:
  "start_http_request h11_client (example_request BodyNone)
     ((new_connection h11_client)\<lparr>ours := DONE\<rparr>) (Some 7) [WantsToSend] []
   = Some (Inl ProtocolError, (new_connection h11_client)\<lparr>ours := DONE\<rparr>, [])
   \<and> send_request h11_client (example_connection ''example.com'' ((new_connection h11_client)\<lparr>ours := DONE\<rparr>))
        (example_request BodyNone) [WantsToSend] []
      = Some (Inl ProtocolError,
              example_connection ''example.com'' ((new_connection h11_client)\<lparr>ours := DONE\<rparr>), [])
   \<and> (\<forall>sm' log'.
         start_http_request h11_client (example_request BodyNone) (new_connection h11_client) (Some 7)
           [WantsToSend] []
         \<noteq> Some (Inl ProtocolError, sm', log'))"
  using state_check_before_exchange
      [of "example_connection ''example.com'' ((new_connection h11_client)\<lparr>ours := DONE\<rparr>)"
          "(new_connection h11_client)\<lparr>ours := DONE\<rparr>" h11_client "example_request BodyNone"
          "[WantsToSend]" "[]"]
    state_check_before_exchange
      [of "example_connection ''example.com'' (new_connection h11_client)"
          "new_connection h11_client" h11_client "example_request BodyNone" "[WantsToSend]" "[]"]
  by (simp add: example_connection_def h11_client_def)

text \<open>
  C7. The property \<open>complete\<close> is true if and only if the connection has no state machine,
  or \<open>our_state\<close> and \<open>their_state\<close> of its state machine are both \<open>IDLE\<close>; a connection
  that had a socket has no state machine once it is closed, and is complete.
\<close>

theorem complete_iff_unbound_or_idle:
  "(complete E conn \<longleftrightarrow>
      conn_state_machine conn = None
      \<or> (\<exists>sm. conn_state_machine conn = Some sm \<and> our_state E sm = IDLE \<and> their_state E sm = IDLE))
   \<and> complete E (fst (close (conn\<lparr>conn_sock := Some s\<rparr>) log))"
  by (simp add: complete_def close_def split: option.splits)

text \<open>
  C9. \<open>close\<close> on a connection that holds a socket leaves \<open>_sock\<close> and \<open>_state_machine\<close>
  \<open>None\<close> and calls \<open>forceful_close\<close> on that socket once, as its only effect; a second
  \<open>close\<close> changes neither the connection nor the log. On a connection without a socket
  \<open>close\<close> does nothing. So on any connection \<open>close\<close> after \<open>close\<close> is \<open>close\<close>.
\<close>

theorem close_idempotent:
  "(case conn_sock conn of
      Some s \<Rightarrow>
        close conn log
          = (conn\<lparr>conn_state_machine := None, conn_sock := None\<rparr>, log @ [ForcefulClose s])
        \<and> close (conn\<lparr>conn_state_machine := None, conn_sock := None\<rparr>) (log @ [ForcefulClose s])
          = (conn\<lparr>conn_state_machine := None, conn_sock := None\<rparr>, log @ [ForcefulClose s])
    | None \<Rightarrow> close conn log = (conn, log))
   \<and> close (fst (close conn log)) (snd (close conn log)) = close conn log"
  by (simp add: close_def split: option.splits)

theorem close_idempotent_witness:
  "close (example_connection ''example.com'' (new_connection h11_client)) []
   = ((example_connection ''example.com'' (new_connection h11_client))
        \<lparr>conn_state_machine := None, conn_sock := None\<rparr>, [ForcefulClose 7])
   \<and> close ((example_connection ''example.com'' (new_connection h11_client))
               \<lparr>conn_state_machine := None, conn_sock := None\<rparr>) [ForcefulClose 7]
      = ((example_connection ''example.com'' (new_connection h11_client))
           \<lparr>conn_state_machine := None, conn_sock := None\<rparr>, [ForcefulClose 7])"
  using close_idempotent
      [of "example_connection ''example.com'' (new_connection h11_client)" "[]"]
  by (simp add: example_connection_def)

text \<open>
  C10. \<open>connect\<close> on a connection whose socket is already open returns at once: the
  connection (its socket and its state machine among the rest) is unchanged, and the one
  effect is \<open>set_readable_watch_state(False)\<close> on the existing socket; the backend is not
  asked for a connection, and no tunnel or TLS step runs.
\<close>

theorem connect_when_connected:
  assumes "conn_sock conn = Some s"
  shows "connect E W async_mode conn ctx fingerprint assert_host steps log
         = Some (Inr (), conn, log @ [SetReadableWatchState s False])"
  using assms by (simp add: connect_def)

theorem connect_when_connected_witness:
  "connect h11_client example_platform False
     (example_connection ''example.com'' (new_connection h11_client))
     (Some \<lparr> ctx_verify_mode = CERT_REQUIRED \<rparr>) None AssertNone [WantsToSend] []
   = Some (Inr (), example_connection ''example.com'' (new_connection h11_client),
           [SetReadableWatchState 7 False])"
  using connect_when_connected
      [of "example_connection ''example.com'' (new_connection h11_client)" 7 h11_client
          example_platform False "Some \<lparr> ctx_verify_mode = CERT_REQUIRED \<rparr>" None AssertNone
          "[WantsToSend]" "[]"]
  by (simp add: example_connection_def)

text \<open>
  C4 (as the code has it). When the exchange of \<open>_tunnel\<close> has returned a response, that
  response is converted first, so a version other than \<open>1.0\<close> and \<open>1.1\<close> raises
  \<open>BadVersionError\<close> whatever the status, with the socket left open. With a supported
  version: the status \<open>200\<close> completes the tunnel without error, and every other status,
  the other 2xx among them, closes the raw socket forcefully, after everything else, and
  raises \<open>FailedTunnelError\<close> with the tunnel response attached.
\<close>

theorem tunnel_status:
  assumes "conn_state_machine conn = Some sm"
    and "our_state E sm = IDLE"
    and "build_tunnel_request W (conn_tunnel_host conn) (conn_tunnel_port conn)
           (conn_tunnel_headers conn) = Inr tunnel_request"
    and "start_http_request E tunnel_request (new_connection E) (Some s) steps log
           = Some (Inr r, tunnel_state_machine, log')"
  shows "tunnel E W conn s steps log =
           (if h11_http_version r \<noteq> ''1.0'' \<and> h11_http_version r \<noteq> ''1.1''
            then Some (Inl (BadVersionError (h11_http_version r)), log')
            else if h11_status_code r = 200 then Some (Inr (), log')
            else Some (Inl (FailedTunnelError
                              \<lparr> status_code = h11_status_code r,
                                resp_headers = headers_to_native_string (h11_headers r),
                                resp_body = Self,
                                version = ''HTTP/'' @ h11_http_version r \<rparr>),
                       log' @ [ForcefulClose s]))"
  using assms by (simp add: tunnel_def response_from_h11_def SUPPORTED_VERSIONS_def)

theorem tunnel_status_witness:
  "start_http_request h11_client example_tunnel_request (new_connection h11_client) (Some 7)
     [WantsToSend, WantsToSend, Received (response_bytes ''1.1'' ''403'')] []
   = Some (Inr \<lparr> h11_status_code = 403, h11_http_version = ''1.1'', h11_headers = [] \<rparr>,
           (new_connection h11_client)\<lparr>ours := DONE, theirs := SEND_BODY\<rparr>,
           [Outgoing 7 example_tunnel_head])
   \<and> tunnel h11_client example_platform example_proxied 7
        [WantsToSend, WantsToSend, Received (response_bytes ''1.1'' ''403'')] []
      = Some (Inl (FailedTunnelError
                     \<lparr> status_code = 403, resp_headers = [], resp_body = Self,
                       version = ''HTTP/1.1'' \<rparr>),
              [Outgoing 7 example_tunnel_head, ForcefulClose 7])
   \<and> tunnel h11_client example_platform example_proxied 7
        [WantsToSend, WantsToSend, Received (response_bytes ''1.1'' ''200'')] []
      = Some (Inr (), [Outgoing 7 example_tunnel_head])"
proof -
  have sm: "conn_state_machine example_proxied = Some (new_connection h11_client)"
    by (simp add: example_proxied_def example_connection_def)
  have idle: "our_state h11_client (new_connection h11_client) = IDLE"
    by (simp add: h11_client_def)
  have build: "build_tunnel_request example_platform (conn_tunnel_host example_proxied)
       (conn_tunnel_port example_proxied) (conn_tunnel_headers example_proxied)
     = Inr example_tunnel_request"
    by code_simp
  have refused: "start_http_request h11_client example_tunnel_request (new_connection h11_client)
        (Some 7) [WantsToSend, WantsToSend, Received (response_bytes ''1.1'' ''403'')] []
      = Some (Inr \<lparr> h11_status_code = 403, h11_http_version = ''1.1'', h11_headers = [] \<rparr>,
              (new_connection h11_client)\<lparr>ours := DONE, theirs := SEND_BODY\<rparr>,
              [Outgoing 7 example_tunnel_head])"
    by code_simp
  have granted: "start_http_request h11_client example_tunnel_request (new_connection h11_client)
        (Some 7) [WantsToSend, WantsToSend, Received (response_bytes ''1.1'' ''200'')] []
      = Some (Inr \<lparr> h11_status_code = 200, h11_http_version = ''1.1'', h11_headers = [] \<rparr>,
              (new_connection h11_client)\<lparr>ours := DONE, theirs := SEND_BODY\<rparr>,
              [Outgoing 7 example_tunnel_head])"
    by code_simp
  show ?thesis
    using tunnel_status [OF sm idle build refused] tunnel_status [OF sm idle build granted] refused
    by (simp add: headers_to_native_string_def)
qed

theorem tunnel_bad_version_counterexample:
  "start_http_request h11_client example_tunnel_request (new_connection h11_client) (Some 7)
     [WantsToSend, WantsToSend, Received (response_bytes ''2.0'' ''403'')] []
   = Some (Inr \<lparr> h11_status_code = 403, h11_http_version = ''2.0'', h11_headers = [] \<rparr>,
           (new_connection h11_client)\<lparr>ours := DONE, theirs := SEND_BODY\<rparr>,
           [Outgoing 7 example_tunnel_head])
   \<and> tunnel h11_client example_platform example_proxied 7
        [WantsToSend, WantsToSend, Received (response_bytes ''2.0'' ''403'')] []
      = Some (Inl (BadVersionError ''2.0''), [Outgoing 7 example_tunnel_head])
   \<and> tunnel h11_client example_platform example_proxied 7
        [WantsToSend, WantsToSend, Received (response_bytes ''2.0'' ''200'')] []
      = Some (Inl (BadVersionError ''2.0''), [Outgoing 7 example_tunnel_head])"
  by code_simp








lemma make_body_iterable_invalid:
  "make_body_iterable b = Inl e \<longleftrightarrow> e = InvalidBodyError \<and> ((\<exists>t. b = BodyText t) \<or> b = BodyOther)"
  by (auto simp: make_body_iterable_def split: body.splits)

lemma invalid_body_never_yields:
  assumes "make_body_iterable (req_body req) = Inl InvalidBodyError"
    and "it = IterNew \<or> it = IterDone"
  shows "\<exists>r it' sm'. request_bytes_iterable E req it sm = (r, it', sm') \<and> it' = IterDone
           \<and> (\<forall>b. r \<noteq> Inr (Some b))"
  using assms
  by (auto simp: request_bytes_iterable_def first_packet_bytes_def all_pieces_iter_def
        send_piece_def
      split: prod.splits sum.splits option.splits)

lemma invalid_body_loop:
  assumes "make_body_iterable (req_body req) = Inl InvalidBodyError"
    and "remaining x = IterNew \<or> remaining x = IterDone"
    and "send_and_receive_for_a_while (produce_bytes E req) (consume_bytes E) s fin steps x log
           = Some (r, x', log')"
  shows "log' = log"
  using assms(2,3)
proof (induction steps arbitrary: fin x)
  case Nil
  then show ?case by simp
next
  case (Cons step steps)
  show ?case
  proof (cases step)
    case WantsToSend
    show ?thesis
    proof (cases fin)
      case True
      with Cons WantsToSend show ?thesis by simp
    next
      case False
      from invalid_body_never_yields [OF assms(1) Cons.prems(1), of E "machine x"]
      obtain r0 sm0 where g: "request_bytes_iterable E req (remaining x) (machine x) = (r0, IterDone, sm0)"
        and ny: "\<forall>b. r0 \<noteq> Inr (Some b)"
        by blast
      show ?thesis
      proof (cases r0)
        case (Inl e)
        with g Cons.prems WantsToSend False show ?thesis
          by (simp add: produce_bytes_def)
      next
        case (Inr y)
        with ny have y: "y = None" by (cases y) auto
        with Inr g Cons.prems WantsToSend False show ?thesis
          using Cons.IH [of "x\<lparr>send_aborted := False, remaining := IterDone, machine := sm0\<rparr>" True]
          by (simp add: produce_bytes_def)
      qed
    qed
  next
    case (Received incoming)
    show ?thesis
    proof (cases "consume_bytes E incoming x")
      case None
      with Cons.prems Received show ?thesis by simp
    next
      case (Some res)
      obtain r1 x1 where res: "res = (r1, x1)" by (cases res)
      note cr = consume_bytes_result [OF Some [unfolded res]]
      show ?thesis
      proof (cases r1)
        case (Inl e)
        with Cons.prems Received Some res show ?thesis
          by (auto split: if_splits)
      next
        case (Inr u)
        with Cons.prems Received Some res cr show ?thesis
          using Cons.IH [of x1 fin] by simp
      qed
    qed
  next
    case (Fails e)
    with Cons.prems show ?thesis by simp
  qed
qed

text \<open>
  C5. For a request whose body is text, or any other value that is not \<open>None\<close>, not
  bytes, has no \<open>read\<close> and is not a non-text iterable: \<open>_make_body_iterable\<close> raises
  \<open>InvalidBodyError\<close>; an exchange with that request, under every engine and transport,
  hands the transport no bytes at all (its log gains nothing, or the one \<open>send_failed\<close> of
  a response that came before anything was asked for); and when the transport first asks
  for bytes, with the state machine idle and the request head accepted by the engine, the
  exchange ends there with \<open>InvalidBodyError\<close>.
\<close>

theorem invalid_body_before_wire:
  assumes "req_body req = BodyText t \<or> req_body req = BodyOther"
  shows "make_body_iterable (req_body req) = Inl InvalidBodyError
         \<and> (start_http_request E req sm sock_opt steps log = Some (res, sm', log')
              \<longrightarrow> log' = log \<or> log' = log @ [SendFailed])
         \<and> (our_state E sm = IDLE \<and> their_state E sm = IDLE
              \<and> stringify_headers (req_headers req) = Inr hs
              \<and> send E sm (Request (req_method req) (req_target req) hs) = (Inr head, sm1)
              \<longrightarrow> start_http_request E req sm (Some s) (WantsToSend # steps) log
                    = Some (Inl InvalidBodyError, sm1, log))"
proof -
  from assms have invalid: "make_body_iterable (req_body req) = Inl InvalidBodyError"
    by (auto simp: make_body_iterable_def)
  have quiet: "log' = log \<or> log' = log @ [SendFailed]"
    if run: "start_http_request E req sm sock_opt steps log = Some (res, sm', log')"
  proof (cases "our_state E sm \<noteq> IDLE \<or> their_state E sm \<noteq> IDLE")
    case True
    with run show ?thesis by (auto simp: start_http_request_def)
  next
    case False
    show ?thesis
    proof (cases sock_opt)
      case None
      with run False show ?thesis by (auto simp: start_http_request_def)
    next
      case (Some s0)
      with run False obtain r x log1 where
        loop: "exchange_loop E req sm s0 steps log = Some (r, x, log1)"
        and "log' = log1 \<or> log' = log1 @ [SendFailed]"
        by (auto simp: start_http_request_def split: option.splits prod.splits sum.splits if_splits)
      moreover from invalid_body_loop [OF invalid _ loop [unfolded exchange_loop_def]]
      have "log1 = log" by simp
      ultimately show ?thesis by simp
    qed
  qed
  have first: "start_http_request E req sm (Some s) (WantsToSend # steps) log
                 = Some (Inl InvalidBodyError, sm1, log)"
    if "our_state E sm = IDLE" "their_state E sm = IDLE"
      "stringify_headers (req_headers req) = Inr hs"
      "send E sm (Request (req_method req) (req_target req) hs) = (Inr head, sm1)"
    using that invalid
    by (simp add: start_http_request_def exchange_loop_def produce_bytes_def
        request_bytes_iterable_def first_packet_bytes_def all_pieces_iter_def send_piece_def)
  from invalid quiet first show ?thesis by blast
qed

theorem invalid_body_before_wire_witness:
  "make_body_iterable (req_body (example_request (BodyText ''thisshouldbeonechunk'')))
   = Inl InvalidBodyError
   \<and> start_http_request h11_client (example_request (BodyText ''thisshouldbeonechunk''))
        (new_connection h11_client) (Some 7)
        [WantsToSend, Received (response_bytes ''1.1'' ''200'')] []
      = Some (Inl InvalidBodyError,
              (new_connection h11_client)
                \<lparr>ours := SEND_BODY, theirs := SEND_RESPONSE, body_framing := Chunked\<rparr>,
              [])"
proof -
  have body: "req_body (example_request (BodyText ''thisshouldbeonechunk''))
                = BodyText ''thisshouldbeonechunk''
              \<or> req_body (example_request (BodyText ''thisshouldbeonechunk'')) = BodyOther"
    by (simp add: example_request_def)
  have idle: "our_state h11_client (new_connection h11_client) = IDLE"
    "their_state h11_client (new_connection h11_client) = IDLE"
    by (simp_all add: h11_client_def)
  have hs: "stringify_headers (req_headers (example_request (BodyText ''thisshouldbeonechunk'')))
            = Inr [(''Transfer-Encoding'', ''chunked'')]"
    by code_simp
  have head: "send h11_client (new_connection h11_client)
                (Request (req_method (example_request (BodyText ''thisshouldbeonechunk'')))
                   (req_target (example_request (BodyText ''thisshouldbeonechunk'')))
                   [(''Transfer-Encoding'', ''chunked'')])
              = (Inr example_head,
                 (new_connection h11_client)
                   \<lparr>ours := SEND_BODY, theirs := SEND_RESPONSE, body_framing := Chunked\<rparr>)"
    by code_simp
  from invalid_body_before_wire
      [where req = "example_request (BodyText ''thisshouldbeonechunk'')"
         and t = "''thisshouldbeonechunk''" and E = h11_client
         and sm = "new_connection h11_client" and sock_opt = "Some 7"
         and steps = "[Received (response_bytes ''1.1'' ''200'')]" and log = "[]"
         and res = "Inl InvalidBodyError" and sm' = "new_connection h11_client" and log' = "[]"
         and hs = "[(''Transfer-Encoding'', ''chunked'')]" and head = example_head
         and ?sm1.0 = "(new_connection h11_client)
                         \<lparr>ours := SEND_BODY, theirs := SEND_RESPONSE, body_framing := Chunked\<rparr>"
         and s = 7, OF body]
    idle hs head
  show ?thesis by simp
qed

lemma chunk_frame_nonempty: "chunk_frame d \<noteq> []"
  by (simp add: chunk_frame_def CRLF_def)

lemma last_chunk_nonempty: "last_chunk \<noteq> []"
  by (simp add: last_chunk_def)

lemma request_head_nonempty: "request_head m t hs \<noteq> []"
  by (simp add: request_head_def CRLF_def)

lemma iterable_end:
  "request_bytes_iterable E req (IterRunning PiecesEnd) sm = (Inr None, IterDone, sm)"
  by (simp add: request_bytes_iterable_def nonempty_piece.simps [of E req PiecesEnd sm]
      all_pieces_iter_def)

lemma h11_client_send: "send h11_client = model_send"
  by (simp add: h11_client_def)

lemma chunked_last:
  assumes "ours sm = SEND_BODY" "body_framing sm = Chunked"
  shows "request_bytes_iterable h11_client req (IterRunning (PiecesChunks [])) sm
         = (Inr (Some last_chunk), IterRunning PiecesEnd, sm\<lparr>ours := DONE\<rparr>)"
  using assms last_chunk_nonempty
  by (simp add: request_bytes_iterable_def nonempty_piece.simps [of h11_client req "PiecesChunks []" sm]
      all_pieces_iter_def next_chunk_def send_piece_def h11_client_send model_send_def)

lemma chunked_data:
  assumes "ours sm = SEND_BODY" "body_framing sm = Chunked" "c \<noteq> []"
  shows "request_bytes_iterable h11_client req (IterRunning (PiecesChunks (c # cs))) sm
         = (Inr (Some (chunk_frame c)), IterRunning (PiecesChunks cs), sm)"
  using assms chunk_frame_nonempty [of c]
  by (simp add: request_bytes_iterable_def
      nonempty_piece.simps [of h11_client req "PiecesChunks (c # cs)" sm]
      all_pieces_iter_def next_chunk_def send_piece_def h11_client_send model_send_def)

lemma chunked_empty:
  assumes "ours sm = SEND_BODY" "body_framing sm = Chunked"
  shows "request_bytes_iterable h11_client req (IterRunning (PiecesChunks ([] # cs))) sm
         = request_bytes_iterable h11_client req (IterRunning (PiecesChunks cs)) sm"
  using assms
  by (simp add: request_bytes_iterable_def
      nonempty_piece.simps [of h11_client req "PiecesChunks ([] # cs)" sm]
      all_pieces_iter_def next_chunk_def send_piece_def h11_client_send model_send_def)

lemma chunked_rest:
  assumes "ours sm = SEND_BODY" "body_framing sm = Chunked"
  shows "all_request_bytes h11_client req (IterRunning (PiecesChunks cs)) sm
         = (None, map chunk_frame (filter (\<lambda>c. c \<noteq> []) cs) @ [last_chunk], sm\<lparr>ours := DONE\<rparr>)"
proof (induction cs)
  case Nil
  show ?case
    by (simp add: all_request_bytes.simps [of h11_client req "IterRunning (PiecesChunks [])" sm]
        all_request_bytes.simps [of h11_client req "IterRunning PiecesEnd"]
        chunked_last [OF assms] iterable_end)
next
  case (Cons c cs)
  show ?case
  proof (cases "c = []")
    case True
    have "all_request_bytes h11_client req (IterRunning (PiecesChunks (c # cs))) sm
          = all_request_bytes h11_client req (IterRunning (PiecesChunks cs)) sm"
      unfolding True
      by (simp add: all_request_bytes.simps [of h11_client req "IterRunning (PiecesChunks ([] # cs))" sm]
          all_request_bytes.simps [of h11_client req "IterRunning (PiecesChunks cs)" sm]
          chunked_empty [OF assms])
    with Cons True show ?thesis by simp
  next
    case False
    with Cons show ?thesis
      by (simp add: all_request_bytes.simps [of h11_client req "IterRunning (PiecesChunks (c # cs))" sm]
          chunked_data [OF assms False])
  qed
qed

lemma digit_char_zero: "0 < d \<Longrightarrow> d < 16 \<Longrightarrow> digit_char d \<noteq> CHR ''0''"
proof -
  assume "0 < d" "d < 16"
  then have "d \<in> set [1..<16]" by simp
  moreover have "list_all (\<lambda>d. digit_char d \<noteq> CHR ''0'') [1..<16]" by code_simp
  ultimately show ?thesis by (simp only: list_all_iff) blast
qed

lemma hex_nonempty: "hex n \<noteq> []"
  by (subst hex.simps) simp

lemma hex_leading: "0 < n \<Longrightarrow> hd (hex n) \<noteq> CHR ''0''"
proof (induction n rule: hex.induct)
  case (1 n)
  show ?case
  proof (cases "n < 16")
    case True
    with "1.prems" show ?thesis
      by (subst hex.simps) (simp add: digit_char_zero)
  next
    case False
    then have "0 < n div 16" by simp
    with "1.IH" False have "hd (hex (n div 16)) \<noteq> CHR ''0''" by simp
    with False hex_nonempty [of "n div 16"] show ?thesis
      by (subst hex.simps) simp
  qed
qed


lemma chunked_first:
  assumes "ours sm = IDLE"
    and "stringify_headers (req_headers req) = Inr hs"
    and "is_chunked hs"
    and "make_body_iterable (req_body req) = Inr chunks"
  shows "request_bytes_iterable h11_client req IterNew sm
         = (case chunks of
              [] \<Rightarrow>
                (Inr (Some (request_head (req_method req) (req_target req) hs @ last_chunk)),
                 IterRunning PiecesEnd,
                 sm\<lparr>ours := DONE, theirs := SEND_RESPONSE, body_framing := Chunked\<rparr>)
            | c # cs \<Rightarrow>
                (Inr (Some (request_head (req_method req) (req_target req) hs
                            @ (if c = [] then [] else chunk_frame c))),
                 IterRunning (PiecesChunks cs),
                 sm\<lparr>ours := SEND_BODY, theirs := SEND_RESPONSE, body_framing := Chunked\<rparr>))"
  using assms request_head_nonempty [of "req_method req" "req_target req" hs]
  by (simp add: request_bytes_iterable_def first_packet_bytes_def all_pieces_iter_def
      next_chunk_def send_piece_def h11_client_send model_send_def split: list.splits)

lemma chunked_wire:
  assumes "ours sm = IDLE"
    and "stringify_headers (req_headers req) = Inr hs"
    and "is_chunked hs"
    and "make_body_iterable (req_body req) = Inr chunks"
  shows "\<exists>pieces final.
           all_request_bytes h11_client req IterNew sm = (None, pieces, final)
           \<and> [] \<notin> set pieces
           \<and> concat pieces
               = request_head (req_method req) (req_target req) hs
                 @ concat (map chunk_frame (filter (\<lambda>c. c \<noteq> []) chunks)) @ last_chunk"
proof (cases chunks)
  case Nil
  show ?thesis
    using chunked_first [OF assms] Nil request_head_nonempty [of "req_method req" "req_target req" hs]
    by (simp add: all_request_bytes.simps [of h11_client req IterNew sm]
        all_request_bytes.simps [of h11_client req "IterRunning PiecesEnd"] iterable_end)
next
  case (Cons c cs)
  let ?sm1 = "sm\<lparr>ours := SEND_BODY, theirs := SEND_RESPONSE, body_framing := Chunked\<rparr>"
  have rest: "all_request_bytes h11_client req (IterRunning (PiecesChunks cs)) ?sm1
         = (None, map chunk_frame (filter (\<lambda>c. c \<noteq> []) cs) @ [last_chunk], ?sm1\<lparr>ours := DONE\<rparr>)"
    by (rule chunked_rest) simp_all
  show ?thesis
    using chunked_first [OF assms] Cons rest chunk_frame_nonempty last_chunk_nonempty
      chunk_frame_nonempty [THEN not_sym] request_head_nonempty [of "req_method req" "req_target req" hs]
    by (auto simp add: all_request_bytes.simps [of h11_client req IterNew sm])
qed

text \<open>
  C1. Whatever the engine, a resumption of \<open>_request_bytes_iterable\<close> never yields an
  empty piece, so every chunk the transport is handed in an exchange is non-empty. In
  particular under the chunked writer of the engine model: for a request with chunked
  framing the generator runs to its end without an exception, and the bytes it puts on
  the wire are the request head, one chunk frame for each non-empty chunk of the body in
  order, and the terminator; the size line of each of those frames starts with a digit
  other than \<open>0\<close>, so the terminator is the only frame of size zero, however many empty
  chunks the body holds.
\<close>

theorem no_empty_piece_no_empty_chunk:
  "(request_bytes_iterable E req it sm = (Inr (Some piece), it', sm') \<longrightarrow> piece \<noteq> [])
   \<and> (exchange_loop E req sm s steps log = Some (r, x, log')
        \<longrightarrow> (\<exists>outs. log' = log @ map (Outgoing s) outs \<and> [] \<notin> set outs))
   \<and> (ours m = IDLE \<and> stringify_headers (req_headers req) = Inr hs \<and> is_chunked hs
        \<and> make_body_iterable (req_body req) = Inr chunks
        \<longrightarrow> (\<exists>pieces final.
               all_request_bytes h11_client req IterNew m = (None, pieces, final)
               \<and> [] \<notin> set pieces
               \<and> concat pieces
                   = request_head (req_method req) (req_target req) hs
                     @ concat (map chunk_frame (filter (\<lambda>c. c \<noteq> []) chunks)) @ last_chunk)
             \<and> (\<forall>c \<in> set chunks. c \<noteq> [] \<longrightarrow>
                    chunk_frame c = hex (length c) @ CRLF @ c @ CRLF \<and> hd (hex (length c)) \<noteq> CHR ''0''))"
proof -
  have a: "piece \<noteq> []" if "request_bytes_iterable E req it sm = (Inr (Some piece), it', sm')"
    using request_bytes_iterable_result [OF that] by simp
  have b: "\<exists>outs. log' = log @ map (Outgoing s) outs \<and> [] \<notin> set outs"
    if "exchange_loop E req sm s steps log = Some (r, x, log')"
    using exchange_loop_result [OF that] by blast
  have c: "\<forall>c \<in> set chunks. c \<noteq> [] \<longrightarrow>
             chunk_frame c = hex (length c) @ CRLF @ c @ CRLF \<and> hd (hex (length c)) \<noteq> CHR ''0''"
    by (simp add: chunk_frame_def hex_leading)
  from a b c chunked_wire [of m req hs chunks] show ?thesis by blast
qed

theorem no_empty_piece_no_empty_chunk_witness:
  "all_request_bytes h11_client
     (example_request (BodyIterable [''foo'', ''bar'', [], ''bazzzzzzzzzzzzzzzzzzzzzz'']))
     IterNew (new_connection h11_client)
   = (None,
      [example_head @ ''3'' @ CRLF @ ''foo'' @ CRLF,
       ''3'' @ CRLF @ ''bar'' @ CRLF,
       ''18'' @ CRLF @ ''bazzzzzzzzzzzzzzzzzzzzzz'' @ CRLF,
       ''0'' @ CRLF @ CRLF],
      (new_connection h11_client)\<lparr>ours := DONE, theirs := SEND_RESPONSE, body_framing := Chunked\<rparr>)
   \<and> (\<exists>pieces final.
         all_request_bytes h11_client
           (example_request (BodyIterable [''foo'', ''bar'', [], ''bazzzzzzzzzzzzzzzzzzzzzz'']))
           IterNew (new_connection h11_client) = (None, pieces, final)
         \<and> [] \<notin> set pieces
         \<and> concat pieces
             = request_head
                 (req_method (example_request
                    (BodyIterable [''foo'', ''bar'', [], ''bazzzzzzzzzzzzzzzzzzzzzz''])))
                 (req_target (example_request
                    (BodyIterable [''foo'', ''bar'', [], ''bazzzzzzzzzzzzzzzzzzzzzz''])))
                 [(''Transfer-Encoding'', ''chunked'')]
               @ concat (map chunk_frame
                           (filter (\<lambda>c. c \<noteq> []) [''foo'', ''bar'', [], ''bazzzzzzzzzzzzzzzzzzzzzz'']))
               @ last_chunk)"
proof -
  have run: "all_request_bytes h11_client
     (example_request (BodyIterable [''foo'', ''bar'', [], ''bazzzzzzzzzzzzzzzzzzzzzz'']))
     IterNew (new_connection h11_client)
   = (None,
      [example_head @ ''3'' @ CRLF @ ''foo'' @ CRLF,
       ''3'' @ CRLF @ ''bar'' @ CRLF,
       ''18'' @ CRLF @ ''bazzzzzzzzzzzzzzzzzzzzzz'' @ CRLF,
       ''0'' @ CRLF @ CRLF],
      (new_connection h11_client)\<lparr>ours := DONE, theirs := SEND_RESPONSE, body_framing := Chunked\<rparr>)"
    by code_simp
  have idle: "ours (new_connection h11_client) = IDLE"
    by (simp add: h11_client_def)
  have hs: "stringify_headers
              (req_headers (example_request (BodyIterable [''foo'', ''bar'', [], ''bazzzzzzzzzzzzzzzzzzzzzz''])))
            = Inr [(''Transfer-Encoding'', ''chunked'')]"
    by code_simp
  have chunked: "is_chunked [(''Transfer-Encoding'', ''chunked'')]"
    by code_simp
  have chunks: "make_body_iterable
                  (req_body (example_request (BodyIterable [''foo'', ''bar'', [], ''bazzzzzzzzzzzzzzzzzzzzzz''])))
                = Inr [''foo'', ''bar'', [], ''bazzzzzzzzzzzzzzzzzzzzzz'']"
    by (simp add: example_request_def make_body_iterable_def)
  from no_empty_piece_no_empty_chunk
      [where E = h11_client
         and req = "example_request (BodyIterable [''foo'', ''bar'', [], ''bazzzzzzzzzzzzzzzzzzzzzz''])"
         and it = IterDone and sm = "new_connection h11_client" and piece = "[]"
         and it' = IterDone and sm' = "new_connection h11_client" and s = 7 and steps = "[]"
         and log = "[]" and r = "Inr ()" and log' = "[]"
         and x = "\<lparr> send_aborted = True, saved_response = None, remaining = IterNew,
                     machine = new_connection h11_client \<rparr>"
         and m = "new_connection h11_client" and hs = "[(''Transfer-Encoding'', ''chunked'')]"
         and chunks = "[''foo'', ''bar'', [], ''bazzzzzzzzzzzzzzzzzzzzzz'']"]
    idle hs chunked chunks
  have "\<exists>pieces final.
         all_request_bytes h11_client
           (example_request (BodyIterable [''foo'', ''bar'', [], ''bazzzzzzzzzzzzzzzzzzzzzz'']))
           IterNew (new_connection h11_client) = (None, pieces, final)
         \<and> [] \<notin> set pieces
         \<and> concat pieces
             = request_head
                 (req_method (example_request
                    (BodyIterable [''foo'', ''bar'', [], ''bazzzzzzzzzzzzzzzzzzzzzz''])))
                 (req_target (example_request
                    (BodyIterable [''foo'', ''bar'', [], ''bazzzzzzzzzzzzzzzzzzzzzz''])))
                 [(''Transfer-Encoding'', ''chunked'')]
               @ concat (map chunk_frame
                           (filter (\<lambda>c. c \<noteq> []) [''foo'', ''bar'', [], ''bazzzzzzzzzzzzzzzzzzzzzz'']))
               @ last_chunk"
    by blast
  with run show ?thesis by blast
qed

end
